theory Spec2Isabelle
  imports Complex_Main
begin

section \<open>JavaScript values\<close>

text \<open>
  Strings are lists of code units; the model covers code units below 256, so a
  \<^typ>\<open>char\<close> is one code unit. A parsed JSON value is a \<open>json\<close>; an object is its
  property table (keys already unique, as \<open>JSON.parse\<close> leaves them). The JavaScript
  value \<open>undefined\<close> is \<open>None\<close> of \<open>jsval\<close>, every other value is \<open>Some\<close> of a \<open>json\<close>.
\<close>

datatype json =
    JNull
  | JBool bool
  | JNum rat
  | JStr string
  | JArr "json list"
  | JObj "(string \<times> json) list"

type_synonym jsval = "json option"

text \<open>
  A thrown or rejected value: an \<open>Error\<close> instance with its message, or any other value
  together with its \<open>message\<close> property when it has one.
\<close>

datatype js_error = Error string | NonError "string option"

fun error_message :: "js_error \<Rightarrow> string option" where
  "error_message (Error m) = Some m"
| "error_message (NonError m) = m"

text \<open>Calling a property that is not a function raises a \<open>TypeError\<close>.\<close>

definition not_a_function :: "string \<Rightarrow> js_error" where
  "not_a_function what = Error (what @ '' is not a function'')"

text \<open>\<open>v == null\<close>: the test behind \<open>?.\<close> and \<open>??\<close>.\<close>

fun nullish :: "jsval \<Rightarrow> bool" where
  "nullish None = True"
| "nullish (Some JNull) = True"
| "nullish (Some _) = False"

text \<open>\<open>a ?? b\<close>\<close>

definition coalesce :: "jsval \<Rightarrow> jsval \<Rightarrow> jsval" where
  "coalesce a b = (if nullish a then b else a)"

text \<open>
  \<open>v?.k\<close> for the property names read by this program (\<open>outputs\<close>, \<open>message\<close>,
  \<open>artifacts\<close>, \<open>messages\<close>, \<open>results\<close>, \<open>text\<close>): only an object can own one of them;
  arrays, strings, numbers and booleans answer \<open>undefined\<close>.
\<close>

fun field :: "string \<Rightarrow> jsval \<Rightarrow> jsval" where
  "field k (Some (JObj fs)) = map_of fs k"
| "field k _ = None"

text \<open>
  \<open>v?.[0]\<close>: the first element of an array, the property \<open>"0"\<close> of an object, the first
  code unit of a string.
\<close>

fun at0 :: "jsval \<Rightarrow> jsval" where
  "at0 (Some (JArr xs)) = (case xs of [] \<Rightarrow> None | x # _ \<Rightarrow> Some x)"
| "at0 (Some (JObj fs)) = map_of fs ''0''"
| "at0 (Some (JStr s)) = (case s of [] \<Rightarrow> None | c # _ \<Rightarrow> Some (JStr [c]))"
| "at0 _ = None"

text \<open>\<open>!v\<close>\<close>

fun falsy :: "jsval \<Rightarrow> bool" where
  "falsy None = True"
| "falsy (Some JNull) = True"
| "falsy (Some (JBool b)) = (\<not> b)"
| "falsy (Some (JNum n)) = (n = 0)"
| "falsy (Some (JStr s)) = (s = [])"
| "falsy (Some _) = False"

text \<open>
  \<open>String.prototype.trim\<close> removes white space and line terminators from both ends.
  Below 256 these are TAB, LF, VT, FF, CR, SPACE and NBSP.
\<close>

definition is_space :: "char \<Rightarrow> bool" where
  "is_space c = (c \<in> set [CHR 0x09, CHR 0x0A, CHR 0x0B, CHR 0x0C, CHR 0x0D, CHR 0x20, CHR 0xA0])"

definition trim :: "string \<Rightarrow> string" where
  "trim s = rev (dropWhile is_space (rev (dropWhile is_space s)))"

text \<open>The decimal text of a number inside a template literal.\<close>

definition digit :: "nat \<Rightarrow> char" where
  "digit d = ''0123456789'' ! d"

fun decimal_nat :: "nat \<Rightarrow> string" where
  "decimal_nat n = (if 10 \<le> n then decimal_nat (n div 10) @ [digit (n mod 10)] else [digit n])"

declare decimal_nat.simps [simp del]

definition decimal :: "int \<Rightarrow> string" where
  "decimal i = (if 0 \<le> i then decimal_nat (nat i) else CHR ''-'' # decimal_nat (nat (- i)))"

text \<open>
  \<open>Array.prototype.flatMap\<close> with a callback that may throw: the elements are visited
  in order, the first exception ends the call.
\<close>

fun flatMap :: "('a \<Rightarrow> js_error + 'b list) \<Rightarrow> 'a list \<Rightarrow> js_error + 'b list" where
  "flatMap f [] = Inr []"
| "flatMap f (x # xs) =
     (case f x of
        Inl err \<Rightarrow> Inl err
      | Inr ys \<Rightarrow> (case flatMap f xs of Inl err \<Rightarrow> Inl err | Inr zs \<Rightarrow> Inr (ys @ zs)))"

section \<open>extractLangflowMessage\<close>

text \<open>
  The \<open>messages.map(...).filter(...)\<close> of the inner callback: the \<open>message\<close> property of
  every element, those that are strings kept.
\<close>

fun string_messages :: "json list \<Rightarrow> string list" where
  "string_messages [] = []"
| "string_messages (m # ms) =
     (case field ''message'' (Some m) of
        Some (JStr s) \<Rightarrow> s # string_messages ms
      | _ \<Rightarrow> string_messages ms)"

text \<open>The callback applied to each \<open>subEntry\<close>.\<close>

definition subEntry_strings :: "json \<Rightarrow> js_error + string list" where
  "subEntry_strings subEntry =
     (let maybeString =
            coalesce (field ''message'' (field ''message'' (field ''outputs'' (Some subEntry))))
                     (field ''message'' (field ''artifacts'' (Some subEntry)))
      in case maybeString of
           Some (JStr s) \<Rightarrow> Inr [s]
         | _ \<Rightarrow>
           (case coalesce (field ''messages'' (Some subEntry)) (Some (JArr [])) of
              Some (JArr messages) \<Rightarrow> Inr (string_messages messages)
            | _ \<Rightarrow> Inl (not_a_function ''messages.map'')))"

text \<open>The callback applied to each \<open>entry\<close>.\<close>

definition entry_strings :: "json \<Rightarrow> js_error + string list" where
  "entry_strings entry =
     (case coalesce (field ''outputs'' (Some entry)) (Some (JArr [])) of
        Some (JArr inner) \<Rightarrow> flatMap subEntry_strings inner
      | _ \<Rightarrow> Inl (not_a_function ''inner.flatMap''))"

text \<open>
  \<open>data?.outputs?.flatMap(...)\<close>: \<open>undefined\<close> (here \<open>None\<close>) when \<open>data.outputs\<close> is
  nullish, the flattened strings when it is an array, a \<open>TypeError\<close> otherwise.
\<close>

definition scan_outputs :: "jsval \<Rightarrow> js_error + string list option" where
  "scan_outputs data =
     (let outputs = field ''outputs'' data
      in if nullish outputs then Inr None
         else case outputs of
                Some (JArr entries) \<Rightarrow>
                  (case flatMap entry_strings entries of
                     Inl err \<Rightarrow> Inl err
                   | Inr text \<Rightarrow> Inr (Some text))
              | _ \<Rightarrow> Inl (not_a_function ''data?.outputs?.flatMap''))"

text \<open>The four optional chains tried by the \<open>??\<close> cascade, in the order of the source.\<close>

definition path_outputs_message :: "jsval \<Rightarrow> jsval" where
  "path_outputs_message data =
     field ''message'' (field ''message'' (field ''outputs''
       (at0 (field ''outputs'' (at0 (field ''outputs'' data))))))"

definition path_artifacts_message :: "jsval \<Rightarrow> jsval" where
  "path_artifacts_message data =
     field ''message'' (field ''artifacts''
       (at0 (field ''outputs'' (at0 (field ''outputs'' data)))))"

definition path_messages_message :: "jsval \<Rightarrow> jsval" where
  "path_messages_message data =
     field ''message'' (at0 (field ''messages''
       (at0 (field ''outputs'' (at0 (field ''outputs'' data))))))"

definition path_results_text :: "jsval \<Rightarrow> jsval" where
  "path_results_text data =
     field ''text'' (field ''message'' (field ''results''
       (at0 (field ''outputs'' (at0 (field ''outputs'' data))))))"

text \<open>
  The result is \<open>Inl\<close> of the exception when the call throws, \<open>Inr None\<close> for \<open>null\<close>,
  \<open>Inr (Some t)\<close> for the string \<open>t\<close>.
\<close>

definition extractLangflowMessage :: "jsval \<Rightarrow> js_error + string option" where
  "extractLangflowMessage data =
     (if falsy data then Inr None
      else
        let outputs =
              coalesce (path_outputs_message data)
                (coalesce (path_artifacts_message data)
                  (coalesce (path_messages_message data)
                    (path_results_text data)))
        in case (case outputs of
                   Some (JStr s) \<Rightarrow> if length (trim s) > 0 then Some (trim s) else None
                 | _ \<Rightarrow> None) of
             Some t \<Rightarrow> Inr (Some t)
           | None \<Rightarrow>
             (case scan_outputs data of
                Inl err \<Rightarrow> Inl err
              | Inr None \<Rightarrow> Inr None
              | Inr (Some text) \<Rightarrow> (case text of [] \<Rightarrow> Inr None | t # _ \<Rightarrow> Inr (Some t))))"

section \<open>Environment\<close>

text \<open>
  What the page receives from outside: the build-time variables of \<open>import.meta.env\<close>
  (\<open>None\<close> when a variable is not set), and the platform's sources of identifiers, time
  and randomness. Every call of \<open>crypto.randomUUID\<close>, \<open>Date.now\<close>, \<open>new Date\<close> or
  \<open>Math.random\<close> reads its source at the current tick and advances the tick, so the
  \<open>k\<close>-th platform call of the page session sees index \<open>k\<close>. \<open>crypto_randomUUID\<close> is \<open>None\<close>
  where \<open>crypto.randomUUID\<close> is not a function. \<open>Math_random_toString36\<close> is the text
  \<open>Math.random().toString(36)\<close> of a draw, \<open>toISOString\<close> the platform's rendering of a
  time.
\<close>

record env =
  VITE_LANGFLOW_URL :: "string option"
  VITE_LANGFLOW_ORG_ID :: "string option"
  VITE_LANGFLOW_TOKEN :: "string option"
  VITE_ASTRA_API_ENDPOINT :: "string option"
  VITE_ASTRA_DB_KEYSPACE :: "string option"
  VITE_ASTRA_DB_COLLECTION :: "string option"
  VITE_ASTRA_DB_TOKEN :: "string option"
  crypto_randomUUID :: "(nat \<Rightarrow> string) option"
  Date_now :: "nat \<Rightarrow> int"
  Math_random_toString36 :: "nat \<Rightarrow> string"
  toISOString :: "int \<Rightarrow> string"

text \<open>\<open>v || d\<close> on a variable that is a string or \<open>undefined\<close>.\<close>

definition or_else :: "string option \<Rightarrow> string \<Rightarrow> string" where
  "or_else v d = (case v of None \<Rightarrow> d | Some s \<Rightarrow> if s = [] then d else s)"

definition LANGFLOW_URL :: "env \<Rightarrow> string" where
  "LANGFLOW_URL e = or_else (VITE_LANGFLOW_URL e) []"

definition LANGFLOW_ORG_ID :: "env \<Rightarrow> string" where
  "LANGFLOW_ORG_ID e = or_else (VITE_LANGFLOW_ORG_ID e) []"

definition LANGFLOW_TOKEN :: "env \<Rightarrow> string" where
  "LANGFLOW_TOKEN e = or_else (VITE_LANGFLOW_TOKEN e) []"

definition ASTRA_DB_API_ENDPOINT :: "env \<Rightarrow> string" where
  "ASTRA_DB_API_ENDPOINT e = or_else (VITE_ASTRA_API_ENDPOINT e) []"

definition ASTRA_DB_KEYSPACE :: "env \<Rightarrow> string" where
  "ASTRA_DB_KEYSPACE e = or_else (VITE_ASTRA_DB_KEYSPACE e) []"

definition ASTRA_DB_COLLECTION :: "env \<Rightarrow> string" where
  "ASTRA_DB_COLLECTION e = or_else (VITE_ASTRA_DB_COLLECTION e) ''raw_esg''"

definition ASTRA_DB_TOKEN :: "env \<Rightarrow> string" where
  "ASTRA_DB_TOKEN e = or_else (VITE_ASTRA_DB_TOKEN e) []"

text \<open>Both generators return the identifier and the tick after the call.\<close>

definition makeId :: "env \<Rightarrow> nat \<Rightarrow> string \<times> nat" where
  "makeId e k =
     (case crypto_randomUUID e of
        Some randomUUID \<Rightarrow> (randomUUID k, Suc k)
      | None \<Rightarrow>
          (decimal (Date_now e k) @ ''-'' @ take 8 (drop 2 (Math_random_toString36 e (Suc k))),
           Suc (Suc k)))"

definition createSessionId :: "env \<Rightarrow> nat \<Rightarrow> string \<times> nat" where
  "createSessionId e k =
     (case crypto_randomUUID e of
        Some randomUUID \<Rightarrow> (randomUUID k, Suc k)
      | None \<Rightarrow>
          (''session-'' @ decimal (Date_now e k) @ ''-'' @
             take 8 (drop 2 (Math_random_toString36 e (Suc k))),
           Suc (Suc k)))"

section \<open>Chat messages\<close>

record generic_item =
  item_id :: string
  response_type :: string
  item_text :: string

record message_response =
  response_id :: string
  request_id :: "string option"
  output_generic :: "generic_item list"
  history_timestamp :: int

definition buildTextResponse :: "env \<Rightarrow> nat \<Rightarrow> string \<Rightarrow> string option \<Rightarrow> message_response \<times> nat" where
  "buildTextResponse e k txt requestId =
     (let (rid, k1) = makeId e k;
          (iid, k2) = makeId e k1
      in (\<lparr>response_id = ''response-'' @ rid,
           request_id = requestId,
           output_generic = [\<lparr>item_id = ''item-'' @ iid, response_type = ''text'', item_text = txt\<rparr>],
           history_timestamp = Date_now e k2\<rparr>,
          Suc k2))"

text \<open>The texts a message shows.\<close>

definition texts_of :: "message_response \<Rightarrow> string list" where
  "texts_of m = map item_text (output_generic m)"

text \<open>
  The request handed to \<open>customSendMessage\<close>: \<open>request?.id\<close> and \<open>request?.input?.text\<close>,
  each of which may be absent, and the abort signal of \<open>requestOptions\<close>.
\<close>

record message_input =
  input_text :: "string option"

record message_request =
  req_id :: "string option"
  req_input :: "message_input option"

record request_options =
  options_signal :: "nat option"

section \<open>HTTP\<close>

text \<open>
  A request as passed to \<open>fetch\<close>; \<open>body\<close> is the value given to \<open>JSON.stringify\<close>.
  A response carries what \<open>ok\<close>, \<open>status\<close>, \<open>statusText\<close>, \<open>text()\<close> and \<open>json()\<close>
  answer; \<open>json()\<close> rejects when the body is not JSON. \<open>fetch\<close> itself may reject.
\<close>

record http_request =
  url :: string
  http_method :: string
  headers :: "(string \<times> string) list"
  body :: json
  signal :: "nat option"

record http_response =
  ok :: bool
  http_status :: nat
  statusText :: string
  response_text :: string
  response_json :: "js_error + json"

datatype fetch_outcome = Rejected js_error | Resolved http_response

type_synonym network = "http_request \<Rightarrow> fetch_outcome"

datatype console_call = console_info string | console_warn string | console_error string

text \<open>
  What a call did to the outside: the requests it passed to \<open>fetch\<close>, the messages it
  passed to \<open>instance.messaging.addMessage\<close>, its console calls (first argument only),
  and the tick it leaves. The chat instance belongs to the embedded component and is
  taken to accept every message, so \<open>addMessage\<close> resolves.
\<close>

record effects =
  requests :: "http_request list"
  added :: "message_response list"
  logged :: "console_call list"
  tick_after :: nat

datatype completion = Returned | Threw js_error

section \<open>customSendMessage\<close>

text \<open>\<open>request?.input?.text\<close>\<close>

definition request_text :: "message_request option \<Rightarrow> string option" where
  "request_text request = Option.bind (Option.bind request req_input) input_text"

text \<open>The \<open>payload\<close> object and the arguments of the \<open>fetch\<close> call.\<close>

definition payload :: "string \<Rightarrow> string \<Rightarrow> json" where
  "payload userText sessionRef_current =
     JObj [(''output_type'', JStr ''chat''),
           (''input_type'', JStr ''chat''),
           (''input_value'', JStr userText),
           (''session_id'', JStr sessionRef_current)]"

definition langflow_request :: "env \<Rightarrow> json \<Rightarrow> request_options option \<Rightarrow> http_request" where
  "langflow_request e pl requestOptions =
     \<lparr>url = LANGFLOW_URL e,
      http_method = ''POST'',
      headers = [(''X-DataStax-Current-Org'', LANGFLOW_ORG_ID e),
                 (''Authorization'', ''Bearer '' @ LANGFLOW_TOKEN e),
                 (''Content-Type'', ''application/json''),
                 (''Accept'', ''application/json'')],
      body = pl,
      signal = Option.bind requestOptions options_signal\<rparr>"

definition customSendMessage ::
  "env \<Rightarrow> network \<Rightarrow> string \<Rightarrow> nat \<Rightarrow> message_request option \<Rightarrow> request_options option
     \<Rightarrow> completion \<times> effects" where
  "customSendMessage e fetch sessionRef_current k request requestOptions =
     (case map_option trim (request_text request) of
        None \<Rightarrow> (Returned, \<lparr>requests = [], added = [], logged = [], tick_after = k\<rparr>)
      | Some userText \<Rightarrow>
        if userText = [] then
          (Returned, \<lparr>requests = [], added = [], logged = [], tick_after = k\<rparr>)
        else
          if LANGFLOW_URL e = [] \<or> LANGFLOW_ORG_ID e = [] \<or> LANGFLOW_TOKEN e = [] then
            let fallback =
                  ''LangFlow configuration is missing. Please check the environment variables.'';
                (m, k') = buildTextResponse e k fallback (Option.bind request req_id)
            in (Returned,
                \<lparr>requests = [], added = [m],
                 logged = [console_error ''LangFlow configuration missing.''],
                 tick_after = k'\<rparr>)
          else
            let rq = langflow_request e (payload userText sessionRef_current) requestOptions;
                tried =
                  (case fetch rq of
                     Rejected err \<Rightarrow> Inl err
                   | Resolved response \<Rightarrow>
                     if \<not> ok response then
                       Inl (Error (''LangFlow request failed: '' @
                                   decimal_nat (http_status response) @ '' '' @
                                   response_text response))
                     else
                       (case response_json response of
                          Inl err \<Rightarrow> Inl err
                        | Inr data \<Rightarrow>
                          (case extractLangflowMessage (Some data) of
                             Inl err \<Rightarrow> Inl err
                           | Inr message \<Rightarrow>
                             Inr (case message of
                                    None \<Rightarrow>
                                      ''I was unable to retrieve a response from the LangFlow assistant.''
                                  | Some t \<Rightarrow> t))))
            in
            (case tried of
               Inr replyText \<Rightarrow>
                 let (m, k') = buildTextResponse e k replyText (Option.bind request req_id)
                 in (Returned,
                     \<lparr>requests = [rq], added = [m], logged = [], tick_after = k'\<rparr>)
             | Inl error \<Rightarrow>
                 let fallback =
                       ''Sorry, I ran into a problem reaching the LangFlow assistant. Please try again in a moment.'';
                     (m, k') = buildTextResponse e k fallback (Option.bind request req_id)
                 in (Threw error,
                     \<lparr>requests = [rq], added = [m],
                      logged = [console_error ''Error contacting LangFlow''],
                      tick_after = k'\<rparr>)))"

section \<open>Files and ingestion\<close>

text \<open>
  A selected file: its \<open>name\<close>, \<open>type\<close> and \<open>size\<close> (\<open>None\<close> when nullish), and what the
  \<open>FileReader\<close> does on \<open>readAsDataURL\<close>: it loads with \<open>reader.result\<close> (\<open>None\<close> when
  the result is not a string), or it fails with \<open>reader.error\<close> (\<open>None\<close> when null).
\<close>

datatype reader_outcome = Loaded "string option" | ReadFailed "js_error option"

record js_file =
  file_name :: string
  file_type :: string
  file_size :: "nat option"
  file_read :: reader_outcome

text \<open>\<open>s.split(sep)\<close> for a one-character separator.\<close>

fun split :: "char \<Rightarrow> string \<Rightarrow> string list" where
  "split sep [] = [[]]"
| "split sep (c # cs) =
     (if c = sep then [] # split sep cs
      else (case split sep cs of p # ps \<Rightarrow> (c # p) # ps | [] \<Rightarrow> [[c]]))"

definition readFileAsBase64 :: "js_file \<Rightarrow> js_error + string" where
  "readFileAsBase64 f =
     (case file_read f of
        Loaded (Some result) \<Rightarrow>
          Inr (case split CHR '','' result of _ # base64 # _ \<Rightarrow> base64 | _ \<Rightarrow> result)
      | Loaded None \<Rightarrow> Inl (Error ''Failed to read file as base64.'')
      | ReadFailed (Some err) \<Rightarrow> Inl err
      | ReadFailed None \<Rightarrow> Inl (Error ''Unknown file read error''))"

text \<open>
  The object \<open>ingestFileToAstra\<close> resolves to: \<open>success\<close>, \<open>skipped\<close>, \<open>message\<close>, \<open>data\<close>
  and \<open>error\<close>. An absent \<open>skipped\<close> reads as false; the other absent properties are
  \<open>None\<close>.
\<close>

record ingestion_result =
  success :: bool
  skipped :: bool
  result_message :: "string option"
  result_data :: "json option"
  result_error :: "js_error option"

text \<open>The \<open>catch\<close> block of \<open>ingestFileToAstra\<close>.\<close>

definition ingestion_caught :: "js_error \<Rightarrow> http_request list \<Rightarrow> nat \<Rightarrow> ingestion_result \<times> effects" where
  "ingestion_caught error rqs k =
     (\<lparr>success = False, skipped = False, result_message = None, result_data = None,
       result_error = Some error\<rparr>,
      \<lparr>requests = rqs, added = [],
       logged = [console_error ''Error ingesting file into Astra DB''],
       tick_after = k\<rparr>)"

text \<open>The \<open>document\<close> built from a file and the arguments of the two Astra \<open>fetch\<close> calls.\<close>

definition document :: "env \<Rightarrow> nat \<Rightarrow> js_file \<Rightarrow> string \<Rightarrow> json" where
  "document e k f base64 =
     JObj [(''filename'', JStr (file_name f)),
           (''mimeType'',
              JStr (if file_type f = [] then ''application/octet-stream'' else file_type f)),
           (''size'', (case file_size f of None \<Rightarrow> JNull | Some n \<Rightarrow> JNum (of_nat n))),
           (''uploadedAt'', JStr (toISOString e (Date_now e k))),
           (''$vectorize'', JStr (file_name f)),
           (''contentBase64'', JStr base64)]"

definition insertMany_request :: "env \<Rightarrow> json \<Rightarrow> http_request" where
  "insertMany_request e doc =
     \<lparr>url = ASTRA_DB_API_ENDPOINT e @ ''/api/json/v1/'' @ ASTRA_DB_KEYSPACE e @
             ''/'' @ ASTRA_DB_COLLECTION e,
      http_method = ''POST'',
      headers = [(''Content-Type'', ''application/json''),
                 (''X-Cassandra-Token'', ASTRA_DB_TOKEN e)],
      body = JObj [(''insertMany'', JObj [(''documents'', JArr [doc])])],
      signal = None\<rparr>"

definition findOne_request :: "env \<Rightarrow> http_request" where
  "findOne_request e =
     \<lparr>url = ASTRA_DB_API_ENDPOINT e @ ''/api/json/v1/'' @ ASTRA_DB_KEYSPACE e @
             ''/'' @ ASTRA_DB_COLLECTION e,
      http_method = ''POST'',
      headers = [(''Content-Type'', ''application/json''),
                 (''Accept'', ''application/json''),
                 (''X-Cassandra-Token'', ASTRA_DB_TOKEN e)],
      body = JObj [(''findOne'',
                    JObj [(''filter'', JObj []),
                          (''options'',
                           JObj [(''includeSimilarity'', JBool False),
                                 (''includeSortVector'', JBool False)])])],
      signal = None\<rparr>"

definition ingestFileToAstra :: "env \<Rightarrow> network \<Rightarrow> nat \<Rightarrow> js_file \<Rightarrow> ingestion_result \<times> effects" where
  "ingestFileToAstra e fetch k f =
     (if ASTRA_DB_API_ENDPOINT e = [] \<or> ASTRA_DB_KEYSPACE e = [] \<or>
         ASTRA_DB_COLLECTION e = [] \<or> ASTRA_DB_TOKEN e = [] then
        let message = ''Astra DB configuration missing. Skipping ingestion.''
        in (\<lparr>success = False, skipped = True, result_message = Some message,
             result_data = None, result_error = None\<rparr>,
            \<lparr>requests = [], added = [], logged = [console_warn message], tick_after = k\<rparr>)
      else
        case readFileAsBase64 f of
          Inl error \<Rightarrow> ingestion_caught error [] k
        | Inr base64 \<Rightarrow>
          let rq = insertMany_request e (document e k f base64)
          in
          (case fetch rq of
             Rejected error \<Rightarrow> ingestion_caught error [rq] (Suc k)
           | Resolved response \<Rightarrow>
             if \<not> ok response then
               ingestion_caught
                 (Error (''Astra insertMany request failed: '' @
                         decimal_nat (http_status response) @ '' '' @ statusText response @
                         '' '' @ response_text response))
                 [rq] (Suc k)
             else
               (case response_json response of
                  Inl error \<Rightarrow> ingestion_caught error [rq] (Suc k)
                | Inr data \<Rightarrow>
                  (\<lparr>success = True, skipped = False, result_message = None,
                    result_data = Some data, result_error = None\<rparr>,
                   \<lparr>requests = [rq], added = [], logged = [], tick_after = Suc k\<rparr>))))"

section \<open>testAstraConnection\<close>

text \<open>
  The value of \<open>astraConnectionStatus\<close>: its \<open>checked\<close>, \<open>success\<close> (here \<open>connected\<close>)
  and \<open>message\<close> (here \<open>status_message\<close>). The function reads no clock; it hands the
  tick back unchanged.
\<close>

record connection_status =
  checked :: bool
  connected :: bool
  status_message :: string

definition testAstraConnection :: "env \<Rightarrow> network \<Rightarrow> nat \<Rightarrow> connection_status \<times> effects" where
  "testAstraConnection e fetch k =
     (if ASTRA_DB_API_ENDPOINT e = [] \<or> ASTRA_DB_KEYSPACE e = [] \<or>
         ASTRA_DB_COLLECTION e = [] \<or> ASTRA_DB_TOKEN e = [] then
        (\<lparr>checked = True, connected = False,
          status_message =
            ''Missing Astra DB configuration. Please check your environment variables.''\<rparr>,
         \<lparr>requests = [], added = [], logged = [], tick_after = k\<rparr>)
      else
        let rq = findOne_request e;
            caught = (\<lambda>error.
              (\<lparr>checked = True, connected = False,
                status_message =
                  (case error of Error m \<Rightarrow> m | NonError _ \<Rightarrow> ''Unknown connection error.'')\<rparr>,
               \<lparr>requests = [rq], added = [],
                logged = [console_error ''Astra connection test failed''], tick_after = k\<rparr>))
        in
        (case fetch rq of
           Rejected error \<Rightarrow> caught error
         | Resolved response \<Rightarrow>
           if \<not> ok response then
             caught (Error (decimal_nat (http_status response) @ '' '' @ statusText response @
                            '' '' @ response_text response))
           else
             (\<lparr>checked = True, connected = True,
               status_message = ''Successfully connected to Astra DB collection.''\<rparr>,
              \<lparr>requests = [rq], added = [], logged = [], tick_after = k\<rparr>)))"

section \<open>The uploaded-files list\<close>

text \<open>
  An entry of \<open>uploadedFiles\<close>: its \<open>id\<close>, \<open>file\<close>, \<open>name\<close>, \<open>size\<close>, \<open>createdAt\<close> and
  \<open>status\<close> (a string, as in the source), and the properties an update adds.
  \<open>entry_size\<close> is \<open>None\<close> for \<open>NaN\<close>; \<open>completedAt\<close>, \<open>astraResponse\<close> and
  \<open>errorMessage\<close> are \<open>None\<close> while the property is absent. Times are milliseconds.
\<close>

record entry =
  entry_id :: string
  entry_file :: js_file
  entry_name :: string
  entry_size :: "nat option"
  createdAt :: int
  status :: string
  completedAt :: "int option"
  astraResponse :: "json option"
  errorMessage :: "string option"

text \<open>The \<open>filesFromEvent.map\<close> of \<open>handleFilesSelected\<close>: one entry per file, in order.\<close>

fun nextFiles :: "env \<Rightarrow> nat \<Rightarrow> js_file list \<Rightarrow> entry list \<times> nat" where
  "nextFiles e k [] = ([], k)"
| "nextFiles e k (f # fs) =
     (let (i, k1) = makeId e k;
          item = \<lparr>entry_id = i, entry_file = f, entry_name = file_name f,
                  entry_size = file_size f, createdAt = Date_now e k1,
                  status = ''uploading'', completedAt = None, astraResponse = None,
                  errorMessage = None\<rparr>;
          (items, k2) = nextFiles e (Suc k1) fs
      in (item # items, k2))"

text \<open>
  The updater passed to \<open>setUploadedFiles\<close> when the ingestion of the entry with
  identifier \<open>entryId\<close> has settled: \<open>prev.map\<close> over the list, \<open>new Date()\<close> read for
  each item it completes.
\<close>

fun settle :: "env \<Rightarrow> string \<Rightarrow> ingestion_result \<Rightarrow> nat \<Rightarrow> entry list \<Rightarrow> entry list \<times> nat" where
  "settle e entryId ingestionResult k [] = ([], k)"
| "settle e entryId ingestionResult k (item # prev) =
     (if entry_id item \<noteq> entryId then
        let (items, k') = settle e entryId ingestionResult k prev in (item # items, k')
      else if success ingestionResult \<or> skipped ingestionResult then
        let (items, k') = settle e entryId ingestionResult (Suc k) prev
        in (item\<lparr>status := ''complete'',
                 completedAt := Some (Date_now e k),
                 astraResponse :=
                   Some (case result_data ingestionResult of None \<Rightarrow> JNull | Some d \<Rightarrow> d)\<rparr>
              # items, k')
      else
        let (items, k') = settle e entryId ingestionResult k prev
        in (item\<lparr>status := ''error'',
                 errorMessage :=
                   Some (case Option.bind (result_error ingestionResult) error_message of
                           None \<Rightarrow> ''Failed to ingest file.''
                         | Some m \<Rightarrow> m)\<rparr>
              # items, k'))"

text \<open>What the sidebar shows for an entry's status.\<close>

datatype status_view = Uploading_indicator | Failed_tag | Uploaded_tag

definition status_view :: "entry \<Rightarrow> status_view" where
  "status_view item =
     (if status item = ''uploading'' then Uploading_indicator
      else if status item = ''error'' then Failed_tag
      else Uploaded_tag)"

section \<open>The App component\<close>

text \<open>
  The state of one page session: the two \<open>useState\<close> cells, the refs, the number of
  handlers registered for the RESET bus event (each is \<open>regenerateSessionId\<close>), the
  entries whose ingestion timer is pending, and the record of what has gone out
  (messages added to the chat, console calls, requests), with the current tick.
\<close>

record app =
  uploadedFiles :: "entry list"
  astraConnectionStatus :: connection_status
  sessionRef :: string
  resetRegisteredRef :: bool
  reset_handlers :: nat
  timers :: "entry list"
  chat :: "message_response list"
  console :: "console_call list"
  wire :: "http_request list"
  tick :: nat

definition mount :: "env \<Rightarrow> app" where
  "mount e =
     (let (sid, k) = createSessionId e 0
      in \<lparr>uploadedFiles = [],
          astraConnectionStatus = \<lparr>checked = False, connected = False, status_message = []\<rparr>,
          sessionRef = sid,
          resetRegisteredRef = False,
          reset_handlers = 0,
          timers = [],
          chat = [],
          console = [],
          wire = [],
          tick = k\<rparr>)"

definition regenerateSessionId :: "env \<Rightarrow> app \<Rightarrow> app" where
  "regenerateSessionId e s =
     (let (sid, k) = createSessionId e (tick s) in s\<lparr>sessionRef := sid, tick := k\<rparr>)"

definition handleBeforeRender :: "app \<Rightarrow> app" where
  "handleBeforeRender s =
     (if resetRegisteredRef s then s
      else s\<lparr>resetRegisteredRef := True, reset_handlers := Suc (reset_handlers s)\<rparr>)"

text \<open>
  \<open>handleFilesSelected\<close>, given the files of the event (none when \<open>event.target.files\<close>
  is nullish): the entries are appended and one timer per entry is started (its delay
  draws \<open>Math.random\<close> once). Clearing the input element afterwards touches no state
  of the component.
\<close>

definition handleFilesSelected :: "env \<Rightarrow> app \<Rightarrow> js_file list \<Rightarrow> app" where
  "handleFilesSelected e s filesFromEvent =
     (if length filesFromEvent = 0 then s
      else
        let (new, k) = nextFiles e (tick s) filesFromEvent
        in s\<lparr>uploadedFiles := uploadedFiles s @ new,
              timers := timers s @ new,
              tick := k + length new\<rparr>)"

text \<open>The body of the timer started for \<open>entry\<close>.\<close>

definition timer_callback :: "env \<Rightarrow> network \<Rightarrow> app \<Rightarrow> entry \<Rightarrow> app" where
  "timer_callback e fetch s item =
     (let (ingestionResult, fx) = ingestFileToAstra e fetch (tick s) (entry_file item);
          uploaded = (if success ingestionResult \<or> skipped ingestionResult
                      then [console_info ''file uploaded''] else []);
          (files, k) = settle e (entry_id item) ingestionResult (tick_after fx) (uploadedFiles s)
      in s\<lparr>uploadedFiles := files,
            console := console s @ logged fx @ uploaded,
            wire := wire s @ requests fx,
            tick := k\<rparr>)"

definition handleRemoveFile :: "app \<Rightarrow> string \<Rightarrow> app" where
  "handleRemoveFile s fileId =
     s\<lparr>uploadedFiles := filter (\<lambda>f. entry_id f \<noteq> fileId) (uploadedFiles s)\<rparr>"

text \<open>
  What can happen to the page. A render evaluates the argument of
  \<open>useRef(createSessionId())\<close> again and drops the value. \<open>TimerFired i\<close> runs the
  \<open>i\<close>-th pending timer. The network of an event answers the requests that event makes.
  An asynchronous handler is one event: \<open>customSendMessage\<close> reads \<open>sessionRef\<close> before
  its first \<open>await\<close>, and the state updates of the other handlers are functions of the
  state at the moment they are applied, so what other handlers do in between does not
  change what this one does.
\<close>

datatype event =
    Render
  | BeforeRender
  | Reset
  | SendMessage "message_request option" "request_options option" network
  | FilesSelected "js_file list"
  | TimerFired nat network
  | RemoveFile string
  | TestAstraConnection network

fun step :: "env \<Rightarrow> app \<Rightarrow> event \<Rightarrow> app" where
  "step e s Render = s\<lparr>tick := snd (createSessionId e (tick s))\<rparr>"
| "step e s BeforeRender = handleBeforeRender s"
| "step e s Reset = (regenerateSessionId e ^^ reset_handlers s) s"
| "step e s (SendMessage request requestOptions fetch) =
     (let (c, fx) = customSendMessage e fetch (sessionRef s) (tick s) request requestOptions
      in s\<lparr>chat := chat s @ added fx,
            console := console s @ logged fx,
            wire := wire s @ requests fx,
            tick := tick_after fx\<rparr>)"
| "step e s (FilesSelected fs) = handleFilesSelected e s fs"
| "step e s (TimerFired i fetch) =
     (if i < length (timers s)
      then timer_callback e fetch (s\<lparr>timers := take i (timers s) @ drop (Suc i) (timers s)\<rparr>)
             (timers s ! i)
      else s)"
| "step e s (RemoveFile fileId) = handleRemoveFile s fileId"
| "step e s (TestAstraConnection fetch) =
     (let (st, fx) = testAstraConnection e fetch (tick s)
      in s\<lparr>astraConnectionStatus := st,
            console := console s @ logged fx,
            wire := wire s @ requests fx\<rparr>)"

definition run :: "env \<Rightarrow> app \<Rightarrow> event list \<Rightarrow> app" where
  "run e s evs = foldl (step e) s evs"

section \<open>Example inputs\<close>

text \<open>
  Two environments, one with no variable set and one with all of them set, both with
  \<open>crypto.randomUUID\<close>; networks that are down, that answer 200 with a JSON body, and
  that answer 500; a reply in the shape the workflow endpoint uses; a chat request and
  a file.
\<close>

definition env_unset :: env where
  "env_unset =
     \<lparr>VITE_LANGFLOW_URL = None, VITE_LANGFLOW_ORG_ID = None, VITE_LANGFLOW_TOKEN = None,
      VITE_ASTRA_API_ENDPOINT = None, VITE_ASTRA_DB_KEYSPACE = None,
      VITE_ASTRA_DB_COLLECTION = None, VITE_ASTRA_DB_TOKEN = None,
      crypto_randomUUID = Some (\<lambda>k. ''uuid-'' @ replicate k CHR ''x''),
      Date_now = (\<lambda>k. 1000 + int k),
      Math_random_toString36 = (\<lambda>k. ''0.4fzyo82mvyr''),
      toISOString = (\<lambda>t. ''2025-01-01T00:00:00.000Z'')\<rparr>"

definition env_set :: env where
  "env_set =
     env_unset\<lparr>VITE_LANGFLOW_URL := Some ''https://flow.example/run'',
               VITE_LANGFLOW_ORG_ID := Some ''org'',
               VITE_LANGFLOW_TOKEN := Some ''secret'',
               VITE_ASTRA_API_ENDPOINT := Some ''https://db.example'',
               VITE_ASTRA_DB_KEYSPACE := Some ''ks'',
               VITE_ASTRA_DB_TOKEN := Some ''token''\<rparr>"

definition offline :: network where
  "offline rq = Rejected (Error ''Failed to fetch'')"

definition answering :: "json \<Rightarrow> network" where
  "answering data rq =
     Resolved \<lparr>ok = True, http_status = 200, statusText = ''OK'', response_text = [],
               response_json = Inr data\<rparr>"

definition refusing :: network where
  "refusing rq =
     Resolved \<lparr>ok = False, http_status = 500, statusText = ''Internal Server Error'',
               response_text = ''boom'', response_json = Inl (Error ''Unexpected token'')\<rparr>"

definition langflow_reply :: "string \<Rightarrow> json" where
  "langflow_reply t =
     JObj [(''outputs'',
            JArr [JObj [(''outputs'',
                         JArr [JObj [(''outputs'',
                                      JObj [(''message'', JObj [(''message'', JStr t)])])]])]])]"

text \<open>
  Replies built from their entries and sub-entries. In \<open>mixed_reply\<close> the one sub-entry
  holds a number at \<open>outputs.message.message\<close>, the string \<open>art\<close> at \<open>artifacts.message\<close>
  and the string \<open>m0\<close> in \<open>messages\<close>. In \<open>late_reply\<close> the first sub-entry holds nothing
  and the text sits in the second entry.
\<close>

definition entry_of :: "json list \<Rightarrow> json" where
  "entry_of subs = JObj [(''outputs'', JArr subs)]"

definition reply_of :: "json list \<Rightarrow> json" where
  "reply_of entries = JObj [(''outputs'', JArr entries)]"

definition mixed_sub :: json where
  "mixed_sub =
     JObj [(''outputs'', JObj [(''message'', JObj [(''message'', JNum 5)])]),
           (''artifacts'', JObj [(''message'', JStr ''art'')]),
           (''messages'', JArr [JObj [(''message'', JStr ''m0'')]])]"

definition mixed_reply :: json where
  "mixed_reply = reply_of [entry_of [mixed_sub]]"

definition late_sub :: json where
  "late_sub = JObj [(''artifacts'', JObj [(''message'', JStr ''late'')])]"

definition late_reply :: json where
  "late_reply = reply_of [entry_of [JObj []], entry_of [late_sub]]"

definition asking :: "string \<Rightarrow> message_request option" where
  "asking t = Some \<lparr>req_id = Some ''req-1'', req_input = Some \<lparr>input_text = Some t\<rparr>\<rparr>"

definition notes_txt :: js_file where
  "notes_txt =
     \<lparr>file_name = ''notes.txt'', file_type = ''text/plain'', file_size = Some 5,
      file_read = Loaded (Some ''data:text/plain;base64,aGVsbG8='')\<rparr>"

text \<open>The page after mounting and selecting the one example file.\<close>

definition one_selected :: "env \<Rightarrow> app" where
  "one_selected e = step e (mount e) (FilesSelected [notes_txt])"

text \<open>
  An environment whose \<open>crypto.randomUUID\<close> answers the same string every time, and a
  file the \<open>FileReader\<close> cannot read.
\<close>

definition env_repeating :: env where
  "env_repeating = env_unset\<lparr>crypto_randomUUID := Some (\<lambda>k. ''same'')\<rparr>"

definition unreadable :: js_file where
  "unreadable = notes_txt\<lparr>file_read := ReadFailed None\<rparr>"

section \<open>The reply paths in the spec's words\<close>

text \<open>
  The spec's reading of the extraction: several possible nested paths of the reply are
  tried in a fixed order and the first match wins. \<open>reply_paths\<close> lists the paths in
  that order; \<open>first_match\<close> is the first candidate that is neither \<open>undefined\<close> nor
  \<open>null\<close>.
\<close>

fun first_match :: "jsval list \<Rightarrow> jsval" where
  "first_match [] = None"
| "first_match (v # vs) = (if nullish v then first_match vs else v)"

definition reply_paths :: "(jsval \<Rightarrow> jsval) list" where
  "reply_paths =
     [path_outputs_message, path_artifacts_message, path_messages_message, path_results_text]"

text \<open>
  The extraction as the code has it by design, in two stages. The first stage takes the
  first match of the four paths when it is a string with visible text, trimmed
  (\<open>visible_text\<close>). The second stage looks through every entry of \<open>outputs\<close> and every
  sub-entry of an entry's \<open>outputs\<close>, in order: a sub-entry offers its
  \<open>outputs.message.message\<close> (or, when that is nullish, its \<open>artifacts.message\<close>) if that
  is a string, and else the string \<open>message\<close> values of its \<open>messages\<close>; \<open>candidates\<close> is
  the list of all strings offered, in order. \<open>entry_scannable\<close> says that what the scan
  treats as an array is an array or nullish.
\<close>

definition visible_text :: "jsval \<Rightarrow> string option" where
  "visible_text v =
     (case v of Some (JStr s) \<Rightarrow> if trim s = [] then None else Some (trim s) | _ \<Rightarrow> None)"

definition sub_entry_candidates :: "json \<Rightarrow> string list" where
  "sub_entry_candidates sub =
     (case first_match [field ''message'' (field ''message'' (field ''outputs'' (Some sub))),
                        field ''message'' (field ''artifacts'' (Some sub))] of
        Some (JStr s) \<Rightarrow> [s]
      | _ \<Rightarrow>
        (case field ''messages'' (Some sub) of
           Some (JArr ms) \<Rightarrow>
             List.map_filter
               (\<lambda>m. case field ''message'' (Some m) of Some (JStr s) \<Rightarrow> Some s | _ \<Rightarrow> None) ms
         | _ \<Rightarrow> []))"

definition entry_candidates :: "json \<Rightarrow> string list" where
  "entry_candidates entry =
     (case field ''outputs'' (Some entry) of
        Some (JArr subs) \<Rightarrow> concat (map sub_entry_candidates subs)
      | _ \<Rightarrow> [])"

definition candidates :: "json list \<Rightarrow> string list" where
  "candidates entries = concat (map entry_candidates entries)"

definition sub_entry_scannable :: "json \<Rightarrow> bool" where
  "sub_entry_scannable sub =
     (case first_match [field ''message'' (field ''message'' (field ''outputs'' (Some sub))),
                        field ''message'' (field ''artifacts'' (Some sub))] of
        Some (JStr s) \<Rightarrow> True
      | _ \<Rightarrow>
        (case field ''messages'' (Some sub) of
           None \<Rightarrow> True
         | Some JNull \<Rightarrow> True
         | Some (JArr ms) \<Rightarrow> True
         | _ \<Rightarrow> False))"

definition entry_scannable :: "json \<Rightarrow> bool" where
  "entry_scannable entry =
     (case field ''outputs'' (Some entry) of
        None \<Rightarrow> True
      | Some JNull \<Rightarrow> True
      | Some (JArr subs) \<Rightarrow> list_all sub_entry_scannable subs
      | _ \<Rightarrow> False)"

section \<open>Trimming\<close>

lemma dropWhile_all: "\<forall>c\<in>set t. P c \<Longrightarrow> dropWhile P t = []"
  by (induction t) auto

lemma trim_empty_iff: "trim t = [] \<longleftrightarrow> (\<forall>c\<in>set t. is_space c)"
proof
  assume "\<forall>c\<in>set t. is_space c"
  then show "trim t = []" by (simp add: trim_def dropWhile_all)
next
  assume "trim t = []"
  then have "dropWhile is_space (rev (dropWhile is_space t)) = []"
    by (simp add: trim_def)
  then have "\<forall>c\<in>set (rev (dropWhile is_space t)). is_space c"
    by (simp add: dropWhile_eq_Nil_conv)
  then have "dropWhile is_space t = []"
    by (metis dropWhile_eq_Nil_conv dropWhile_idem set_rev)
  then show "\<forall>c\<in>set t. is_space c"
    by (simp add: dropWhile_eq_Nil_conv)
qed

section \<open>Requests without text\<close>

text \<open>
  C10. When the input text of a send-message request is absent, empty, or made of white
  space only, \<open>customSendMessage\<close> returns at once: it passes no request to \<open>fetch\<close>,
  adds no message to the chat (no fallback either), logs nothing and reads no
  identifier or clock.
\<close>

theorem blank_request_is_ignored:
  assumes "request_text request = None \<or>
           (\<exists>t. request_text request = Some t \<and> (\<forall>c\<in>set t. is_space c))"
  shows "customSendMessage e fetch sid k request requestOptions =
           (Returned, \<lparr>requests = [], added = [], logged = [], tick_after = k\<rparr>)"
  using assms by (auto simp: customSendMessage_def trim_empty_iff)

theorem blank_request_is_ignored_witness:
  "request_text (asking [CHR 0x20, CHR 0x09, CHR 0xA0]) = Some [CHR 0x20, CHR 0x09, CHR 0xA0] \<and>
   customSendMessage env_set (answering (langflow_reply ''yo'')) ''s'' 0
       (asking [CHR 0x20, CHR 0x09, CHR 0xA0]) None =
     (Returned, \<lparr>requests = [], added = [], logged = [], tick_after = 0\<rparr>)"
  using blank_request_is_ignored [of "asking [CHR 0x20, CHR 0x09, CHR 0xA0]" env_set
      "answering (langflow_reply ''yo'')" "''s''" 0 None]
  by (simp add: request_text_def asking_def is_space_def)

section \<open>The branches of customSendMessage\<close>

lemma buildTextResponse_texts: "texts_of (fst (buildTextResponse e k txt rid)) = [txt]"
  by (simp add: buildTextResponse_def texts_of_def split_beta Let_def)

lemma send_unconfigured:
  assumes "LANGFLOW_URL e = [] \<or> LANGFLOW_ORG_ID e = [] \<or> LANGFLOW_TOKEN e = []"
    and "request_text request = Some t" and "trim t \<noteq> []"
  shows "customSendMessage e fetch sid k request requestOptions =
      (Returned,
       \<lparr>requests = [],
        added = [fst (buildTextResponse e k
          ''LangFlow configuration is missing. Please check the environment variables.''
          (Option.bind request req_id))],
        logged = [console_error ''LangFlow configuration missing.''],
        tick_after = snd (buildTextResponse e k
          ''LangFlow configuration is missing. Please check the environment variables.''
          (Option.bind request req_id))\<rparr>)"
  using assms by (simp add: customSendMessage_def split_beta Let_def)

lemma send_caught:
  assumes "LANGFLOW_URL e \<noteq> []" "LANGFLOW_ORG_ID e \<noteq> []" "LANGFLOW_TOKEN e \<noteq> []"
    and "request_text request = Some t" and "trim t \<noteq> []"
    and "fetch (langflow_request e (payload (trim t) sid) requestOptions) = Rejected err \<or>
         (\<exists>r. fetch (langflow_request e (payload (trim t) sid) requestOptions) = Resolved r \<and>
           (\<not> ok r \<and> err = Error (''LangFlow request failed: '' @ decimal_nat (http_status r) @
                                    '' '' @ response_text r) \<or>
            ok r \<and> response_json r = Inl err \<or>
            ok r \<and> (\<exists>d. response_json r = Inr d \<and> extractLangflowMessage (Some d) = Inl err)))"
  shows "customSendMessage e fetch sid k request requestOptions =
      (Threw err,
       \<lparr>requests = [langflow_request e (payload (trim t) sid) requestOptions],
        added = [fst (buildTextResponse e k
          ''Sorry, I ran into a problem reaching the LangFlow assistant. Please try again in a moment.''
          (Option.bind request req_id))],
        logged = [console_error ''Error contacting LangFlow''],
        tick_after = snd (buildTextResponse e k
          ''Sorry, I ran into a problem reaching the LangFlow assistant. Please try again in a moment.''
          (Option.bind request req_id))\<rparr>)"
  using assms by (auto simp: customSendMessage_def split_beta Let_def)

lemma send_replied:
  assumes "LANGFLOW_URL e \<noteq> []" "LANGFLOW_ORG_ID e \<noteq> []" "LANGFLOW_TOKEN e \<noteq> []"
    and "request_text request = Some t" and "trim t \<noteq> []"
    and "fetch (langflow_request e (payload (trim t) sid) requestOptions) = Resolved r"
    and "ok r" and "response_json r = Inr d" and "extractLangflowMessage (Some d) = Inr message"
  shows "customSendMessage e fetch sid k request requestOptions =
      (Returned,
       \<lparr>requests = [langflow_request e (payload (trim t) sid) requestOptions],
        added = [fst (buildTextResponse e k
          (case message of
             None \<Rightarrow> ''I was unable to retrieve a response from the LangFlow assistant.''
           | Some x \<Rightarrow> x)
          (Option.bind request req_id))],
        logged = [],
        tick_after = snd (buildTextResponse e k
          (case message of
             None \<Rightarrow> ''I was unable to retrieve a response from the LangFlow assistant.''
           | Some x \<Rightarrow> x)
          (Option.bind request req_id))\<rparr>)"
  using assms by (simp add: customSendMessage_def split_beta Let_def)

lemma send_requests:
  "requests (snd (customSendMessage e fetch sid k request requestOptions)) =
     (case request_text request of
        None \<Rightarrow> []
      | Some t \<Rightarrow>
          if trim t = [] \<or> LANGFLOW_URL e = [] \<or> LANGFLOW_ORG_ID e = [] \<or> LANGFLOW_TOKEN e = []
          then []
          else [langflow_request e (payload (trim t) sid) requestOptions])"
  by (simp add: customSendMessage_def split_beta Let_def split: option.splits sum.splits)


section \<open>Evaluating the example inputs\<close>

lemmas config_defs =
  LANGFLOW_URL_def LANGFLOW_ORG_ID_def LANGFLOW_TOKEN_def ASTRA_DB_API_ENDPOINT_def
  ASTRA_DB_KEYSPACE_def ASTRA_DB_COLLECTION_def ASTRA_DB_TOKEN_def or_else_def

lemma trim_hi: "trim ''hi'' = ''hi''" "trim '' hi '' = ''hi''"
  by (simp_all add: trim_def is_space_def)

lemma asking_text: "request_text (asking t) = Some t"
  by (simp add: request_text_def asking_def)

lemma env_unset_config:
  "LANGFLOW_URL env_unset = []" "LANGFLOW_ORG_ID env_unset = []" "LANGFLOW_TOKEN env_unset = []"
  "ASTRA_DB_API_ENDPOINT env_unset = []" "ASTRA_DB_KEYSPACE env_unset = []"
  "ASTRA_DB_COLLECTION env_unset = ''raw_esg''" "ASTRA_DB_TOKEN env_unset = []"
  by (simp_all add: env_unset_def config_defs)

lemma env_set_config:
  "LANGFLOW_URL env_set = ''https://flow.example/run''" "LANGFLOW_ORG_ID env_set = ''org''"
  "LANGFLOW_TOKEN env_set = ''secret''"
  "ASTRA_DB_API_ENDPOINT env_set = ''https://db.example''" "ASTRA_DB_KEYSPACE env_set = ''ks''"
  "ASTRA_DB_COLLECTION env_set = ''raw_esg''" "ASTRA_DB_TOKEN env_set = ''token''"
  by (simp_all add: env_set_def env_unset_def config_defs)

lemma extract_empty_object: "extractLangflowMessage (Some (JObj [])) = Inr None"
  by (simp add: extractLangflowMessage_def coalesce_def scan_outputs_def
      path_outputs_message_def path_artifacts_message_def path_messages_message_def
      path_results_text_def)

lemma extract_outputs_string:
  "extractLangflowMessage (Some (JObj [(''outputs'', JStr ''x'')])) =
     Inl (Error ''data?.outputs?.flatMap is not a function'')"
  by (simp add: extractLangflowMessage_def coalesce_def scan_outputs_def not_a_function_def
      path_outputs_message_def path_artifacts_message_def path_messages_message_def
      path_results_text_def)

lemma decimal_nat_500: "decimal_nat 500 = ''500''"
  by (simp add: decimal_nat.simps digit_def)

section \<open>Missing configuration\<close>

text \<open>
  C1, as stated, fails: with the workflow configuration missing, a request whose text
  is blank gets no fallback message, since \<open>customSendMessage\<close> returns before it looks
  at the configuration.
\<close>

theorem blank_request_gets_no_fallback:
  "LANGFLOW_URL env_unset = [] \<and>
   request_text (asking ''   '') = Some ''   '' \<and>
   added (snd (customSendMessage env_unset offline ''s'' 0 (asking ''   '') None)) = []"
  by (simp add: env_unset_config asking_text customSendMessage_def trim_def is_space_def)

text \<open>
  C1, amended. For every send-message request whose trimmed text is not empty: when
  the endpoint URL, the organisation id or the token of the workflow endpoint is the
  empty string, \<open>customSendMessage\<close> returns normally, passes nothing to \<open>fetch\<close>, and
  adds exactly one message, whose text is the designated fallback. Likewise, when a
  document-store value is the empty string, \<open>ingestFileToAstra\<close> and
  \<open>testAstraConnection\<close> make no request and answer with their own designated messages.
\<close>

theorem missing_configuration_fallback:
  "(\<forall>t. (LANGFLOW_URL e = [] \<or> LANGFLOW_ORG_ID e = [] \<or> LANGFLOW_TOKEN e = []) \<and>
        request_text request = Some t \<and> trim t \<noteq> [] \<longrightarrow>
      fst (customSendMessage e fetch sid k request requestOptions) = Returned \<and>
      requests (snd (customSendMessage e fetch sid k request requestOptions)) = [] \<and>
      map texts_of (added (snd (customSendMessage e fetch sid k request requestOptions))) =
        [[''LangFlow configuration is missing. Please check the environment variables.'']]) \<and>
   (ASTRA_DB_API_ENDPOINT e = [] \<or> ASTRA_DB_KEYSPACE e = [] \<or> ASTRA_DB_COLLECTION e = [] \<or>
      ASTRA_DB_TOKEN e = [] \<longrightarrow>
      requests (snd (ingestFileToAstra e fetch k f)) = [] \<and>
      result_message (fst (ingestFileToAstra e fetch k f)) =
        Some ''Astra DB configuration missing. Skipping ingestion.'' \<and>
      requests (snd (testAstraConnection e fetch k)) = [] \<and>
      status_message (fst (testAstraConnection e fetch k)) =
        ''Missing Astra DB configuration. Please check your environment variables.'')"
proof (intro conjI allI impI)
  fix t
  assume h: "(LANGFLOW_URL e = [] \<or> LANGFLOW_ORG_ID e = [] \<or> LANGFLOW_TOKEN e = []) \<and>
        request_text request = Some t \<and> trim t \<noteq> []"
  then have eq: "customSendMessage e fetch sid k request requestOptions =
      (Returned,
       \<lparr>requests = [],
        added = [fst (buildTextResponse e k
          ''LangFlow configuration is missing. Please check the environment variables.''
          (Option.bind request req_id))],
        logged = [console_error ''LangFlow configuration missing.''],
        tick_after = snd (buildTextResponse e k
          ''LangFlow configuration is missing. Please check the environment variables.''
          (Option.bind request req_id))\<rparr>)"
    by (intro send_unconfigured) auto
  show "fst (customSendMessage e fetch sid k request requestOptions) = Returned"
    by (simp add: eq)
  show "requests (snd (customSendMessage e fetch sid k request requestOptions)) = []"
    by (simp add: eq)
  show "map texts_of (added (snd (customSendMessage e fetch sid k request requestOptions))) =
        [[''LangFlow configuration is missing. Please check the environment variables.'']]"
    by (simp add: eq buildTextResponse_texts)
next
  assume "ASTRA_DB_API_ENDPOINT e = [] \<or> ASTRA_DB_KEYSPACE e = [] \<or> ASTRA_DB_COLLECTION e = [] \<or>
      ASTRA_DB_TOKEN e = []"
  then show "requests (snd (ingestFileToAstra e fetch k f)) = []"
    by (simp add: ingestFileToAstra_def Let_def)
next
  assume "ASTRA_DB_API_ENDPOINT e = [] \<or> ASTRA_DB_KEYSPACE e = [] \<or> ASTRA_DB_COLLECTION e = [] \<or>
      ASTRA_DB_TOKEN e = []"
  then show "result_message (fst (ingestFileToAstra e fetch k f)) =
        Some ''Astra DB configuration missing. Skipping ingestion.''"
    by (simp add: ingestFileToAstra_def Let_def)
next
  assume "ASTRA_DB_API_ENDPOINT e = [] \<or> ASTRA_DB_KEYSPACE e = [] \<or> ASTRA_DB_COLLECTION e = [] \<or>
      ASTRA_DB_TOKEN e = []"
  then show "requests (snd (testAstraConnection e fetch k)) = []"
    by (simp add: testAstraConnection_def Let_def)
next
  assume "ASTRA_DB_API_ENDPOINT e = [] \<or> ASTRA_DB_KEYSPACE e = [] \<or> ASTRA_DB_COLLECTION e = [] \<or>
      ASTRA_DB_TOKEN e = []"
  then show "status_message (fst (testAstraConnection e fetch k)) =
        ''Missing Astra DB configuration. Please check your environment variables.''"
    by (simp add: testAstraConnection_def Let_def)
qed

theorem missing_configuration_fallback_witness:
  "LANGFLOW_URL env_unset = [] \<and> request_text (asking ''hi'') = Some ''hi'' \<and>
   trim ''hi'' = ''hi'' \<and> ASTRA_DB_API_ENDPOINT env_unset = [] \<and>
   fst (customSendMessage env_unset offline ''s'' 0 (asking ''hi'') None) = Returned \<and>
   requests (snd (customSendMessage env_unset offline ''s'' 0 (asking ''hi'') None)) = [] \<and>
   map texts_of (added (snd (customSendMessage env_unset offline ''s'' 0 (asking ''hi'') None))) =
     [[''LangFlow configuration is missing. Please check the environment variables.'']] \<and>
   requests (snd (ingestFileToAstra env_unset offline 0 notes_txt)) = [] \<and>
   result_message (fst (ingestFileToAstra env_unset offline 0 notes_txt)) =
     Some ''Astra DB configuration missing. Skipping ingestion.'' \<and>
   requests (snd (testAstraConnection env_unset offline 0)) = [] \<and>
   status_message (fst (testAstraConnection env_unset offline 0)) =
     ''Missing Astra DB configuration. Please check your environment variables.''"
  using missing_configuration_fallback [where e = env_unset and request = "asking ''hi''"
      and fetch = offline and sid = "''s''" and k = 0 and requestOptions = None and f = notes_txt]
  by (simp add: env_unset_config asking_text trim_hi)

section \<open>Failures of a chat turn\<close>

text \<open>
  C3, as stated, fails twice. A reply body from which \<open>extractLangflowMessage\<close> gets
  \<open>null\<close> is answered with a fixed text, but nothing is logged; and with the
  configuration missing, a request without text gets no fallback message at all.
\<close>

theorem unextractable_reply_is_not_logged:
  "logged (snd (customSendMessage env_set (answering (JObj [])) ''s'' 0 (asking ''hi'') None)) = [] \<and>
   map texts_of
     (added (snd (customSendMessage env_set (answering (JObj [])) ''s'' 0 (asking ''hi'') None))) =
     [[''I was unable to retrieve a response from the LangFlow assistant.'']] \<and>
   LANGFLOW_URL env_unset = [] \<and>
   added (snd (customSendMessage env_unset offline ''s'' 0 None None)) = []"
proof -
  have "customSendMessage env_unset offline ''s'' 0 None None =
          (Returned, \<lparr>requests = [], added = [], logged = [], tick_after = 0\<rparr>)"
    by (simp add: customSendMessage_def request_text_def)
  moreover have "customSendMessage env_set (answering (JObj [])) ''s'' 0 (asking ''hi'') None =
      (Returned,
       \<lparr>requests = [langflow_request env_set (payload (trim ''hi'') ''s'') None],
        added = [fst (buildTextResponse env_set 0
          (case None of
             None \<Rightarrow> ''I was unable to retrieve a response from the LangFlow assistant.''
           | Some x \<Rightarrow> x)
          (Option.bind (asking ''hi'') req_id))],
        logged = [],
        tick_after = snd (buildTextResponse env_set 0
          (case None of
             None \<Rightarrow> ''I was unable to retrieve a response from the LangFlow assistant.''
           | Some x \<Rightarrow> x)
          (Option.bind (asking ''hi'') req_id))\<rparr>)"
    by (rule send_replied [where d = "JObj []" and r = "\<lparr>ok = True, http_status = 200,
          statusText = ''OK'', response_text = [], response_json = Inr (JObj [])\<rparr>"])
      (simp_all add: env_set_config asking_text trim_hi answering_def extract_empty_object)
  ultimately show ?thesis
    by (simp add: env_unset_config buildTextResponse_texts)
qed

text \<open>
  C3, amended. For every send-message request whose trimmed text is not empty, at most
  one request is passed to \<open>fetch\<close>, and:
  \<^item> with the configuration missing, the fixed configuration fallback is added, the
    failure is logged and no request is made;
  \<^item> when the endpoint answers with a non-success status, or the body is not JSON, or
    the extraction throws, the fixed apology is added, the failure is logged and the
    error is thrown again;
  \<^item> when the extraction yields \<open>null\<close>, the fixed "unable to retrieve" text is added and
    the turn returns normally; nothing is logged.
\<close>

theorem send_failures:
  assumes "request_text request = Some t" and "trim t \<noteq> []"
  shows "case customSendMessage e fetch sid k request requestOptions of (c, fx) \<Rightarrow>
    length (requests fx) \<le> 1 \<and>
    (LANGFLOW_URL e = [] \<or> LANGFLOW_ORG_ID e = [] \<or> LANGFLOW_TOKEN e = [] \<longrightarrow>
       c = Returned \<and> requests fx = [] \<and>
       map texts_of (added fx) =
         [[''LangFlow configuration is missing. Please check the environment variables.'']] \<and>
       logged fx = [console_error ''LangFlow configuration missing.'']) \<and>
    (LANGFLOW_URL e \<noteq> [] \<and> LANGFLOW_ORG_ID e \<noteq> [] \<and> LANGFLOW_TOKEN e \<noteq> [] \<longrightarrow>
       (\<forall>r. fetch (langflow_request e (payload (trim t) sid) requestOptions) = Resolved r \<and>
            \<not> ok r \<longrightarrow>
          c = Threw (Error (''LangFlow request failed: '' @ decimal_nat (http_status r) @
                            '' '' @ response_text r)) \<and>
          map texts_of (added fx) =
            [[''Sorry, I ran into a problem reaching the LangFlow assistant. Please try again in a moment.'']] \<and>
          logged fx = [console_error ''Error contacting LangFlow'']) \<and>
       (\<forall>r err. fetch (langflow_request e (payload (trim t) sid) requestOptions) = Resolved r \<and>
            ok r \<and>
            (response_json r = Inl err \<or>
             (\<exists>d. response_json r = Inr d \<and> extractLangflowMessage (Some d) = Inl err)) \<longrightarrow>
          c = Threw err \<and>
          map texts_of (added fx) =
            [[''Sorry, I ran into a problem reaching the LangFlow assistant. Please try again in a moment.'']] \<and>
          logged fx = [console_error ''Error contacting LangFlow'']) \<and>
       (\<forall>r d. fetch (langflow_request e (payload (trim t) sid) requestOptions) = Resolved r \<and>
            ok r \<and> response_json r = Inr d \<and> extractLangflowMessage (Some d) = Inr None \<longrightarrow>
          c = Returned \<and>
          map texts_of (added fx) =
            [[''I was unable to retrieve a response from the LangFlow assistant.'']] \<and>
          logged fx = []))"
proof (cases "LANGFLOW_URL e = [] \<or> LANGFLOW_ORG_ID e = [] \<or> LANGFLOW_TOKEN e = []")
  case True
  show ?thesis
    using True by (auto simp: send_unconfigured [OF True assms] buildTextResponse_texts)
next
  case False
  then have cfg: "LANGFLOW_URL e \<noteq> []" "LANGFLOW_ORG_ID e \<noteq> []" "LANGFLOW_TOKEN e \<noteq> []"
    by simp_all
  have one: "length (requests (snd (customSendMessage e fetch sid k request requestOptions))) \<le> 1"
    by (simp add: send_requests assms)
  have refused: "customSendMessage e fetch sid k request requestOptions =
      (Threw (Error (''LangFlow request failed: '' @ decimal_nat (http_status r) @
                            '' '' @ response_text r)),
       \<lparr>requests = [langflow_request e (payload (trim t) sid) requestOptions],
        added = [fst (buildTextResponse e k
          ''Sorry, I ran into a problem reaching the LangFlow assistant. Please try again in a moment.''
          (Option.bind request req_id))],
        logged = [console_error ''Error contacting LangFlow''],
        tick_after = snd (buildTextResponse e k
          ''Sorry, I ran into a problem reaching the LangFlow assistant. Please try again in a moment.''
          (Option.bind request req_id))\<rparr>)"
    if "fetch (langflow_request e (payload (trim t) sid) requestOptions) = Resolved r" "\<not> ok r"
    for r
    using that by (intro send_caught [OF cfg assms]) auto
  have broken: "customSendMessage e fetch sid k request requestOptions =
      (Threw err,
       \<lparr>requests = [langflow_request e (payload (trim t) sid) requestOptions],
        added = [fst (buildTextResponse e k
          ''Sorry, I ran into a problem reaching the LangFlow assistant. Please try again in a moment.''
          (Option.bind request req_id))],
        logged = [console_error ''Error contacting LangFlow''],
        tick_after = snd (buildTextResponse e k
          ''Sorry, I ran into a problem reaching the LangFlow assistant. Please try again in a moment.''
          (Option.bind request req_id))\<rparr>)"
    if "fetch (langflow_request e (payload (trim t) sid) requestOptions) = Resolved r" "ok r"
      "response_json r = Inl err \<or>
       (\<exists>d. response_json r = Inr d \<and> extractLangflowMessage (Some d) = Inl err)"
    for r err
    using that by (intro send_caught [OF cfg assms]) auto
  have silent: "customSendMessage e fetch sid k request requestOptions =
      (Returned,
       \<lparr>requests = [langflow_request e (payload (trim t) sid) requestOptions],
        added = [fst (buildTextResponse e k
          ''I was unable to retrieve a response from the LangFlow assistant.''
          (Option.bind request req_id))],
        logged = [],
        tick_after = snd (buildTextResponse e k
          ''I was unable to retrieve a response from the LangFlow assistant.''
          (Option.bind request req_id))\<rparr>)"
    if "fetch (langflow_request e (payload (trim t) sid) requestOptions) = Resolved r" "ok r"
      "response_json r = Inr d" "extractLangflowMessage (Some d) = Inr None"
    for r d
    using that by (simp add: send_replied [OF cfg assms, where fetch = fetch and sid = sid
          and requestOptions = requestOptions and message = None])
  show ?thesis
    using one False
    by (auto simp: split_beta refused broken silent buildTextResponse_texts)
qed

theorem send_failures_witness:
  "request_text (asking ''hi'') = Some ''hi'' \<and> trim ''hi'' = ''hi'' \<and>
   LANGFLOW_URL env_unset = [] \<and>
   logged (snd (customSendMessage env_unset offline ''s'' 0 (asking ''hi'') None)) =
     [console_error ''LangFlow configuration missing.''] \<and>
   map texts_of (added (snd (customSendMessage env_unset offline ''s'' 0 (asking ''hi'') None))) =
     [[''LangFlow configuration is missing. Please check the environment variables.'']] \<and>
   LANGFLOW_URL env_set \<noteq> [] \<and> LANGFLOW_ORG_ID env_set \<noteq> [] \<and> LANGFLOW_TOKEN env_set \<noteq> [] \<and>
   fst (customSendMessage env_set refusing ''s'' 0 (asking ''hi'') None) =
     Threw (Error ''LangFlow request failed: 500 boom'') \<and>
   logged (snd (customSendMessage env_set refusing ''s'' 0 (asking ''hi'') None)) =
     [console_error ''Error contacting LangFlow''] \<and>
   fst (customSendMessage env_set (answering (JObj [(''outputs'', JStr ''x'')])) ''s'' 0
          (asking ''hi'') None) =
     Threw (Error ''data?.outputs?.flatMap is not a function'') \<and>
   fst (customSendMessage env_set (answering (JObj [])) ''s'' 0 (asking ''hi'') None) = Returned \<and>
   length (requests (snd (customSendMessage env_set (answering (JObj [])) ''s'' 0
          (asking ''hi'') None))) \<le> 1"
proof -
  have t: "request_text (asking ''hi'') = Some ''hi''" "trim ''hi'' \<noteq> []"
    by (simp_all add: asking_text trim_hi)
  show ?thesis
    using send_failures [OF t, where e = env_unset and fetch = offline and sid = "''s''"
        and k = 0 and requestOptions = None]
      send_failures [OF t, where e = env_set and fetch = refusing and sid = "''s''"
        and k = 0 and requestOptions = None]
      send_failures [OF t, where e = env_set
        and fetch = "answering (JObj [(''outputs'', JStr ''x'')])" and sid = "''s''"
        and k = 0 and requestOptions = None]
      send_failures [OF t, where e = env_set and fetch = "answering (JObj [])" and sid = "''s''"
        and k = 0 and requestOptions = None]
    by (simp add: split_beta env_set_config env_unset_config asking_text trim_hi
        refusing_def answering_def extract_empty_object extract_outputs_string decimal_nat_500)
qed

section \<open>The cascade of reply paths\<close>

lemma field_Some_object: "field k v = Some x \<Longrightarrow> \<exists>fs. v = Some (JObj fs)"
  by (cases "(k, v)" rule: field.cases) auto

lemma paths_need_outputs:
  assumes "p \<in> set reply_paths" and "field ''outputs'' data = None"
  shows "p data = None"
  using assms
  by (auto simp: reply_paths_def path_outputs_message_def path_artifacts_message_def
      path_messages_message_def path_results_text_def)

lemma path_not_falsy:
  assumes "p \<in> set reply_paths" and "p data \<noteq> None"
  shows "\<not> falsy data"
proof -
  have "field ''outputs'' data \<noteq> None"
  proof
    assume "field ''outputs'' data = None"
    from paths_need_outputs [OF assms(1) this] assms(2) show False by simp
  qed
  then obtain fs where "data = Some (JObj fs)"
    using field_Some_object by blast
  then show ?thesis by simp
qed

lemma first_match_in: "first_match vs = Some x \<Longrightarrow> Some x \<in> set vs"
  by (induction vs) (auto split: if_splits)

lemma cascade_is_first_match:
  "coalesce (path_outputs_message data)
     (coalesce (path_artifacts_message data)
       (coalesce (path_messages_message data) (path_results_text data))) =
   (if nullish (first_match (map (\<lambda>p. p data) reply_paths))
    then path_results_text data
    else first_match (map (\<lambda>p. p data) reply_paths))"
  by (simp add: reply_paths_def coalesce_def)

lemma extract_first_match:
  assumes "first_match (map (\<lambda>p. p data) reply_paths) = Some (JStr s)" and "trim s \<noteq> []"
  shows "extractLangflowMessage data = Inr (Some (trim s))"
proof -
  have "Some (JStr s) \<in> set (map (\<lambda>p. p data) reply_paths)"
    using assms(1) by (rule first_match_in)
  then obtain p where "p \<in> set reply_paths" "p data = Some (JStr s)"
    by auto
  then have "\<not> falsy data"
    using path_not_falsy by force
  then show ?thesis
    using assms by (simp add: extractLangflowMessage_def cascade_is_first_match)
qed


section \<open>A chat turn\<close>

lemma step_SendMessage:
  "step e s (SendMessage request requestOptions fetch) =
     s\<lparr>chat := chat s @ added (snd (customSendMessage e fetch (sessionRef s) (tick s) request requestOptions)),
       console := console s @ logged (snd (customSendMessage e fetch (sessionRef s) (tick s) request requestOptions)),
       wire := wire s @ requests (snd (customSendMessage e fetch (sessionRef s) (tick s) request requestOptions)),
       tick := tick_after (snd (customSendMessage e fetch (sessionRef s) (tick s) request requestOptions))\<rparr>"
  by (simp add: split_beta)

lemma mount_env_set:
  "sessionRef (mount env_set) = ''uuid-''" "chat (mount env_set) = []" "wire (mount env_set) = []"
  "tick (mount env_set) = 1" "uploadedFiles (mount env_set) = []" "timers (mount env_set) = []"
  by (simp_all add: mount_def createSessionId_def env_set_def env_unset_def)

lemma first_match_langflow_reply:
  "first_match (map (\<lambda>p. p (Some (langflow_reply x))) reply_paths) = Some (JStr x)"
  by (simp add: reply_paths_def langflow_reply_def path_outputs_message_def)

lemma trim_yo: "trim '' yo '' = ''yo''"
  by (simp add: trim_def is_space_def)

section \<open>The two stages of the extraction\<close>

lemma string_messages_filter:
  "string_messages ms =
     List.map_filter
       (\<lambda>m. case field ''message'' (Some m) of Some (JStr s) \<Rightarrow> Some s | _ \<Rightarrow> None) ms"
  by (induction ms) (auto simp: map_filter_simps split: option.splits json.splits)

lemma flatMap_all:
  "list_all (\<lambda>x. f x = Inr (g x)) xs \<Longrightarrow> flatMap f xs = Inr (concat (map g xs))"
  by (induction xs) simp_all

lemma flatMap_some_fails:
  "\<not> list_all (\<lambda>x. \<exists>ys. f x = Inr ys) xs \<Longrightarrow> \<exists>err. flatMap f xs = Inl err"
proof (induction xs)
  case Nil
  then show ?case by simp
next
  case (Cons x xs)
  show ?case
  proof (cases "f x")
    case (Inl err)
    then show ?thesis by simp
  next
    case (Inr ys)
    with Cons.prems have "\<not> list_all (\<lambda>x. \<exists>ys. f x = Inr ys) xs" by simp
    from Cons.IH [OF this] obtain err where "flatMap f xs = Inl err" ..
    with Inr show ?thesis by simp
  qed
qed

lemma string_of_coalesce:
  "(case coalesce a b of Some (JStr s) \<Rightarrow> X s | _ \<Rightarrow> Y) =
   (case first_match [a, b] of Some (JStr s) \<Rightarrow> X s | _ \<Rightarrow> Y)"
proof (cases "nullish a")
  case True
  show ?thesis
  proof (cases "nullish b")
    case True
    with \<open>nullish a\<close> have "b = None \<or> b = Some JNull"
      by (cases b rule: nullish.cases) simp_all
    with True \<open>nullish a\<close> show ?thesis by (auto simp: coalesce_def)
  next
    case False
    with True show ?thesis by (simp add: coalesce_def)
  qed
next
  case False
  then show ?thesis by (simp add: coalesce_def)
qed

lemma array_or_empty:
  "(case coalesce m (Some (JArr [])) of Some (JArr xs) \<Rightarrow> F xs | _ \<Rightarrow> E) =
   (case m of None \<Rightarrow> F [] | Some JNull \<Rightarrow> F [] | Some (JArr xs) \<Rightarrow> F xs | _ \<Rightarrow> E)"
  by (cases m rule: nullish.cases) (simp_all add: coalesce_def split: json.splits)

lemma subEntry_strings_eq:
  "subEntry_strings sub =
     (if sub_entry_scannable sub then Inr (sub_entry_candidates sub)
      else Inl (not_a_function ''messages.map''))"
proof -
  have "subEntry_strings sub =
     (case first_match [field ''message'' (field ''message'' (field ''outputs'' (Some sub))),
                        field ''message'' (field ''artifacts'' (Some sub))] of
        Some (JStr s) \<Rightarrow> Inr [s]
      | _ \<Rightarrow>
        (case field ''messages'' (Some sub) of
           None \<Rightarrow> Inr (string_messages [])
         | Some JNull \<Rightarrow> Inr (string_messages [])
         | Some (JArr ms) \<Rightarrow> Inr (string_messages ms)
         | _ \<Rightarrow> Inl (not_a_function ''messages.map'')))"
    unfolding subEntry_strings_def Let_def string_of_coalesce array_or_empty ..
  also have "\<dots> = (if sub_entry_scannable sub then Inr (sub_entry_candidates sub)
      else Inl (not_a_function ''messages.map''))"
    unfolding sub_entry_scannable_def sub_entry_candidates_def string_messages_filter
    by (simp add: map_filter_simps split: option.split json.split)
  finally show ?thesis .
qed


lemma entry_strings_scannable:
  assumes "entry_scannable entry"
  shows "entry_strings entry = Inr (entry_candidates entry)"
proof -
  have inner: "flatMap subEntry_strings subs = Inr (concat (map sub_entry_candidates subs))"
    if "list_all sub_entry_scannable subs" for subs
  proof (rule flatMap_all)
    from that show "list_all (\<lambda>x. subEntry_strings x = Inr (sub_entry_candidates x)) subs"
      by (induction subs) (simp_all add: subEntry_strings_eq)
  qed
  have "entry_strings entry =
     (case field ''outputs'' (Some entry) of
        None \<Rightarrow> flatMap subEntry_strings []
      | Some JNull \<Rightarrow> flatMap subEntry_strings []
      | Some (JArr subs) \<Rightarrow> flatMap subEntry_strings subs
      | _ \<Rightarrow> Inl (not_a_function ''inner.flatMap''))"
    unfolding entry_strings_def array_or_empty ..
  with assms inner show ?thesis
    by (simp add: entry_scannable_def entry_candidates_def split: option.splits json.splits)
qed

lemma entry_strings_unscannable:
  assumes "\<not> entry_scannable entry"
  shows "\<exists>err. entry_strings entry = Inl err"
proof -
  have inner: "\<exists>err. flatMap subEntry_strings subs = Inl err"
    if "\<not> list_all sub_entry_scannable subs" for subs
  proof (rule flatMap_some_fails)
    from that show "\<not> list_all (\<lambda>x. \<exists>ys. subEntry_strings x = Inr ys) subs"
      by (induction subs) (auto simp: subEntry_strings_eq split: if_splits)
  qed
  have "entry_strings entry =
     (case field ''outputs'' (Some entry) of
        None \<Rightarrow> flatMap subEntry_strings []
      | Some JNull \<Rightarrow> flatMap subEntry_strings []
      | Some (JArr subs) \<Rightarrow> flatMap subEntry_strings subs
      | _ \<Rightarrow> Inl (not_a_function ''inner.flatMap''))"
    unfolding entry_strings_def array_or_empty ..
  with assms inner show ?thesis
    by (simp add: entry_scannable_def split: option.splits json.splits)
qed

lemma scan_scannable:
  assumes "field ''outputs'' data = Some (JArr entries)" and "list_all entry_scannable entries"
  shows "scan_outputs data = Inr (Some (candidates entries))"
proof -
  have "list_all (\<lambda>x. entry_strings x = Inr (entry_candidates x)) entries"
    using assms(2) by (induction entries) (simp_all add: entry_strings_scannable)
  then have "flatMap entry_strings entries = Inr (concat (map entry_candidates entries))"
    by (rule flatMap_all)
  with assms(1) show ?thesis
    by (simp add: scan_outputs_def candidates_def)
qed

lemma scan_unscannable:
  assumes "field ''outputs'' data = Some (JArr entries)" and "\<not> list_all entry_scannable entries"
  shows "\<exists>err. scan_outputs data = Inl err"
proof -
  have "\<not> list_all (\<lambda>x. \<exists>ys. entry_strings x = Inr ys) entries"
    using assms(2) entry_strings_unscannable
    by (induction entries) force+
  then obtain err where "flatMap entry_strings entries = Inl err"
    using flatMap_some_fails by blast
  with assms(1) show ?thesis
    by (simp add: scan_outputs_def)
qed

lemma scan_nullish: "nullish (field ''outputs'' data) \<Longrightarrow> scan_outputs data = Inr None"
  by (simp add: scan_outputs_def)

lemma scan_not_array:
  assumes "\<not> nullish (field ''outputs'' data)" and "\<forall>entries. field ''outputs'' data \<noteq> Some (JArr entries)"
  shows "scan_outputs data = Inl (not_a_function ''data?.outputs?.flatMap'')"
  using assms by (simp add: scan_outputs_def split: option.splits json.splits)

lemma visible_cascade:
  "visible_text (coalesce (path_outputs_message data)
     (coalesce (path_artifacts_message data)
       (coalesce (path_messages_message data) (path_results_text data)))) =
   visible_text (first_match (map (\<lambda>p. p data) reply_paths))"
proof (cases "nullish (first_match (map (\<lambda>p. p data) reply_paths))")
  case True
  then have "nullish (path_results_text data)"
    by (simp add: reply_paths_def split: if_splits)
  then have "visible_text (path_results_text data) = None"
    by (cases "path_results_text data" rule: nullish.cases) (simp_all add: visible_text_def)
  moreover from True have "visible_text (first_match (map (\<lambda>p. p data) reply_paths)) = None"
    by (cases "first_match (map (\<lambda>p. p data) reply_paths)" rule: nullish.cases)
      (simp_all add: visible_text_def)
  ultimately show ?thesis
    using True by (simp add: cascade_is_first_match)
next
  case False
  then show ?thesis by (simp add: cascade_is_first_match)
qed

lemma extract_stages:
  "extractLangflowMessage data =
     (if falsy data then Inr None
      else case visible_text (first_match (map (\<lambda>p. p data) reply_paths)) of
             Some t \<Rightarrow> Inr (Some t)
           | None \<Rightarrow>
             (case scan_outputs data of
                Inl err \<Rightarrow> Inl err
              | Inr None \<Rightarrow> Inr None
              | Inr (Some text) \<Rightarrow> (case text of [] \<Rightarrow> Inr None | t # _ \<Rightarrow> Inr (Some t))))"
proof -
  have "(case v of Some (JStr s) \<Rightarrow> if length (trim s) > 0 then Some (trim s) else None
         | _ \<Rightarrow> None) = visible_text v" for v
    by (simp add: visible_text_def split: option.splits json.splits)
  then show ?thesis
    unfolding extractLangflowMessage_def Let_def
    by (simp only: visible_cascade)
qed

lemma falsy_no_outputs: "falsy data \<Longrightarrow> field ''outputs'' data = None"
  by (cases data rule: falsy.cases) simp_all

lemma falsy_not_visible:
  assumes "falsy data"
  shows "visible_text (first_match (map (\<lambda>p. p data) reply_paths)) = None"
proof -
  have "field ''outputs'' data = None"
    using assms by (rule falsy_no_outputs)
  then have "map (\<lambda>p. p data) reply_paths = [None, None, None, None]"
    by (simp add: reply_paths_def path_outputs_message_def path_artifacts_message_def
        path_messages_message_def path_results_text_def)
  then show ?thesis
    by (simp add: visible_text_def)
qed


lemma mixed_paths:
  "map (\<lambda>p. p (Some mixed_reply)) reply_paths =
     [Some (JNum 5), Some (JStr ''art''), Some (JStr ''m0''), None]"
  by (simp add: reply_paths_def mixed_reply_def reply_of_def entry_of_def mixed_sub_def
      path_outputs_message_def path_artifacts_message_def path_messages_message_def
      path_results_text_def)

lemma late_paths:
  "map (\<lambda>p. p (Some late_reply)) reply_paths = [None, None, None, None]"
  by (simp add: reply_paths_def late_reply_def reply_of_def entry_of_def
      path_outputs_message_def path_artifacts_message_def path_messages_message_def
      path_results_text_def)

lemma reply_of_outputs: "field ''outputs'' (Some (reply_of entries)) = Some (JArr entries)"
  by (simp add: reply_of_def)

lemma mixed_scan:
  "entry_scannable (entry_of [mixed_sub])" "candidates [entry_of [mixed_sub]] = [''m0'']"
  by (simp_all add: entry_scannable_def sub_entry_scannable_def candidates_def
      entry_candidates_def sub_entry_candidates_def entry_of_def mixed_sub_def map_filter_simps)

lemma late_scan:
  "list_all entry_scannable [entry_of [JObj []], entry_of [late_sub]]"
  "candidates [entry_of [JObj []], entry_of [late_sub]] = [''late'']"
  by (simp_all add: entry_scannable_def sub_entry_scannable_def candidates_def
      entry_candidates_def sub_entry_candidates_def entry_of_def late_sub_def map_filter_simps)

lemma trim_examples: "trim ''m0'' = ''m0''" "trim ''late'' = ''late''" "trim ''art'' = ''art''"
  by (simp_all add: trim_def is_space_def)

lemma ok_answer:
  "answering d rq =
     Resolved \<lparr>ok = True, http_status = 200, statusText = ''OK'', response_text = [],
               response_json = Inr d\<rparr>"
  by (simp add: answering_def)

lemma example_outputs:
  "field ''outputs'' (Some mixed_reply) = Some (JArr [entry_of [mixed_sub]])"
  "field ''outputs'' (Some late_reply) = Some (JArr [entry_of [JObj []], entry_of [late_sub]])"
  by (simp_all add: mixed_reply_def late_reply_def reply_of_outputs)

section \<open>The request and the reply of a chat turn\<close>

text \<open>
  C4, as stated, fails in its last part: the first match does not always win. In
  \<open>mixed_reply\<close> the four paths hold a number, the string \<open>art\<close> and the string \<open>m0\<close>; the
  number is the first match and \<open>art\<close> the first string, and the text extracted is \<open>m0\<close>.
\<close>

theorem first_match_does_not_win:
  "map (\<lambda>p. p (Some mixed_reply)) reply_paths =
     [Some (JNum 5), Some (JStr ''art''), Some (JStr ''m0''), None] \<and>
   first_match (map (\<lambda>p. p (Some mixed_reply)) reply_paths) = Some (JNum 5) \<and>
   extractLangflowMessage (Some mixed_reply) = Inr (Some ''m0'')"
proof -
  have "scan_outputs (Some mixed_reply) = Inr (Some [''m0''])"
    using scan_scannable [of "Some mixed_reply" "[entry_of [mixed_sub]]"]
    by (simp add: mixed_reply_def reply_of_outputs mixed_scan)
  moreover have "\<not> falsy (Some mixed_reply)"
    by (simp add: mixed_reply_def reply_of_def)
  ultimately show ?thesis
    by (simp add: extract_stages mixed_paths visible_text_def)
qed

text \<open>
  C4, amended. A send-message request whose trimmed text is not empty, with the
  configuration present, makes exactly one request: a POST to the workflow URL whose
  body carries the trimmed text as \<open>input_value\<close> and the current session identifier as
  \<open>session_id\<close>. The reply text is extracted in two stages:
  \<^item> the four paths are tried in their fixed order and the first value that is neither
    \<open>undefined\<close> nor \<open>null\<close> is taken; when it is a string with visible text, that string,
    trimmed, is the result;
  \<^item> otherwise every entry of \<open>outputs\<close> and every sub-entry is looked through in order,
    and the first string offered, when it has visible text, is the result as it
    stands; when no string is offered, or \<open>outputs\<close> is nullish, the result is \<open>null\<close>;
    when a value the scan calls \<open>flatMap\<close> or \<open>map\<close> on is neither an array nor
    nullish, the extraction throws.

  A text extracted from a successful reply, when it has visible text, is the text of the
  one message added to the chat.
\<close>

theorem chat_turn_posts_once:
  assumes "LANGFLOW_URL e \<noteq> [] \<and> LANGFLOW_ORG_ID e \<noteq> [] \<and> LANGFLOW_TOKEN e \<noteq> []"
    and "request_text request = Some t" and "trim t \<noteq> []"
  shows
    "(\<exists>rq. wire (step e s (SendMessage request requestOptions fetch)) = wire s @ [rq] \<and>
           http_method rq = ''POST'' \<and> url rq = LANGFLOW_URL e \<and>
           field ''input_value'' (Some (body rq)) = Some (JStr (trim t)) \<and>
           field ''session_id'' (Some (body rq)) = Some (JStr (sessionRef s))) \<and>
     (\<forall>data x. visible_text (first_match (map (\<lambda>p. p data) reply_paths)) = Some x \<longrightarrow>
           extractLangflowMessage data = Inr (Some x)) \<and>
     (\<forall>data entries x xs.
           visible_text (first_match (map (\<lambda>p. p data) reply_paths)) = None \<and>
           field ''outputs'' data = Some (JArr entries) \<and> list_all entry_scannable entries \<and>
           candidates entries = x # xs \<and> trim x \<noteq> [] \<longrightarrow>
           extractLangflowMessage data = Inr (Some x)) \<and>
     (\<forall>data entries.
           visible_text (first_match (map (\<lambda>p. p data) reply_paths)) = None \<and>
           field ''outputs'' data = Some (JArr entries) \<and> list_all entry_scannable entries \<and>
           candidates entries = [] \<longrightarrow>
           extractLangflowMessage data = Inr None) \<and>
     (\<forall>data. visible_text (first_match (map (\<lambda>p. p data) reply_paths)) = None \<and>
           nullish (field ''outputs'' data) \<longrightarrow>
           extractLangflowMessage data = Inr None) \<and>
     (\<forall>data. visible_text (first_match (map (\<lambda>p. p data) reply_paths)) = None \<and>
           \<not> nullish (field ''outputs'' data) \<and>
           (\<forall>entries. field ''outputs'' data = Some (JArr entries) \<longrightarrow>
              \<not> list_all entry_scannable entries) \<longrightarrow>
           (\<exists>err. extractLangflowMessage data = Inl err)) \<and>
     (\<forall>r d x. fetch (langflow_request e (payload (trim t) (sessionRef s)) requestOptions) =
                 Resolved r \<and> ok r \<and> response_json r = Inr d \<and>
               extractLangflowMessage (Some d) = Inr (Some x) \<and> trim x \<noteq> [] \<longrightarrow>
           (\<exists>m. chat (step e s (SendMessage request requestOptions fetch)) = chat s @ [m] \<and>
                texts_of m = [x]))"
proof (intro conjI allI impI)
  have "requests (snd (customSendMessage e fetch (sessionRef s) (tick s) request requestOptions)) =
          [langflow_request e (payload (trim t) (sessionRef s)) requestOptions]"
    using assms by (simp add: send_requests)
  then show "\<exists>rq. wire (step e s (SendMessage request requestOptions fetch)) = wire s @ [rq] \<and>
           http_method rq = ''POST'' \<and> url rq = LANGFLOW_URL e \<and>
           field ''input_value'' (Some (body rq)) = Some (JStr (trim t)) \<and>
           field ''session_id'' (Some (body rq)) = Some (JStr (sessionRef s))"
    by (simp add: step_SendMessage langflow_request_def payload_def del: step.simps)
next
  fix data x
  assume v: "visible_text (first_match (map (\<lambda>p. p data) reply_paths)) = Some x"
  then have "\<not> falsy data"
    using falsy_not_visible [of data] by auto
  with v show "extractLangflowMessage data = Inr (Some x)"
    by (simp add: extract_stages)
next
  fix data entries x xs
  assume h: "visible_text (first_match (map (\<lambda>p. p data) reply_paths)) = None \<and>
           field ''outputs'' data = Some (JArr entries) \<and> list_all entry_scannable entries \<and>
           candidates entries = x # xs \<and> trim x \<noteq> []"
  then have "\<not> falsy data"
    using falsy_no_outputs [of data] by auto
  moreover from h have "scan_outputs data = Inr (Some (x # xs))"
    using scan_scannable [of data entries] by simp
  ultimately show "extractLangflowMessage data = Inr (Some x)"
    using h by (simp add: extract_stages)
next
  fix data entries
  assume h: "visible_text (first_match (map (\<lambda>p. p data) reply_paths)) = None \<and>
           field ''outputs'' data = Some (JArr entries) \<and> list_all entry_scannable entries \<and>
           candidates entries = []"
  then have "scan_outputs data = Inr (Some [])"
    using scan_scannable [of data entries] by simp
  with h show "extractLangflowMessage data = Inr None"
    by (simp add: extract_stages)
next
  fix data
  assume h: "visible_text (first_match (map (\<lambda>p. p data) reply_paths)) = None \<and>
           nullish (field ''outputs'' data)"
  then have "scan_outputs data = Inr None"
    by (simp add: scan_nullish)
  with h show "extractLangflowMessage data = Inr None"
    by (simp add: extract_stages)
next
  fix data
  assume h: "visible_text (first_match (map (\<lambda>p. p data) reply_paths)) = None \<and>
           \<not> nullish (field ''outputs'' data) \<and>
           (\<forall>entries. field ''outputs'' data = Some (JArr entries) \<longrightarrow>
              \<not> list_all entry_scannable entries)"
  then have nf: "\<not> falsy data"
    using falsy_no_outputs [of data] by auto
  have "\<exists>err. scan_outputs data = Inl err"
  proof (cases "\<exists>entries. field ''outputs'' data = Some (JArr entries)")
    case True
    then obtain entries where "field ''outputs'' data = Some (JArr entries)" ..
    with h show ?thesis
      using scan_unscannable [of data entries] by blast
  next
    case False
    with h show ?thesis
      using scan_not_array [of data] by blast
  qed
  then obtain err where "scan_outputs data = Inl err" ..
  with h nf have "extractLangflowMessage data = Inl err"
    by (simp add: extract_stages)
  then show "\<exists>err. extractLangflowMessage data = Inl err" ..
next
  fix r d x
  assume h: "fetch (langflow_request e (payload (trim t) (sessionRef s)) requestOptions) =
                 Resolved r \<and> ok r \<and> response_json r = Inr d \<and>
               extractLangflowMessage (Some d) = Inr (Some x) \<and> trim x \<noteq> []"
  with assms have "added (snd (customSendMessage e fetch (sessionRef s) (tick s) request requestOptions)) =
      [fst (buildTextResponse e (tick s) x (Option.bind request req_id))]"
    by (simp add: send_replied [where r = r and d = d and message = "Some x"])
  then show "\<exists>m. chat (step e s (SendMessage request requestOptions fetch)) = chat s @ [m] \<and>
                texts_of m = [x]"
    by (simp add: step_SendMessage buildTextResponse_texts del: step.simps)
qed

theorem chat_turn_posts_once_witness:
  "LANGFLOW_URL env_set \<noteq> [] \<and> LANGFLOW_ORG_ID env_set \<noteq> [] \<and> LANGFLOW_TOKEN env_set \<noteq> [] \<and>
   request_text (asking '' hi '') = Some '' hi '' \<and> trim '' hi '' = ''hi'' \<and>
   map (\<lambda>rq. (http_method rq, field ''input_value'' (Some (body rq)),
              field ''session_id'' (Some (body rq))))
     (wire (step env_set (mount env_set)
        (SendMessage (asking '' hi '') None (answering mixed_reply)))) =
     [(''POST'', Some (JStr ''hi''), Some (JStr ''uuid-''))] \<and>
   visible_text (first_match (map (\<lambda>p. p (Some (langflow_reply '' yo ''))) reply_paths)) =
     Some ''yo'' \<and>
   extractLangflowMessage (Some (langflow_reply '' yo '')) = Inr (Some ''yo'') \<and>
   visible_text (first_match (map (\<lambda>p. p (Some mixed_reply)) reply_paths)) = None \<and>
   candidates [entry_of [mixed_sub]] = [''m0''] \<and>
   extractLangflowMessage (Some mixed_reply) = Inr (Some ''m0'') \<and>
   candidates [entry_of [JObj []], entry_of [late_sub]] = [''late''] \<and>
   extractLangflowMessage (Some late_reply) = Inr (Some ''late'') \<and>
   candidates [entry_of [JObj []]] = [] \<and>
   extractLangflowMessage (Some (reply_of [entry_of [JObj []]])) = Inr None \<and>
   nullish (field ''outputs'' (Some (JObj []))) \<and>
   extractLangflowMessage (Some (JObj [])) = Inr None \<and>
   \<not> nullish (field ''outputs'' (Some (JObj [(''outputs'', JStr ''x'')]))) \<and>
   (\<exists>err. extractLangflowMessage (Some (JObj [(''outputs'', JStr ''x'')])) = Inl err) \<and>
   map texts_of (chat (step env_set (mount env_set)
        (SendMessage (asking '' hi '') None (answering mixed_reply)))) = [[''m0'']]"
proof -
  have cfg: "LANGFLOW_URL env_set \<noteq> [] \<and> LANGFLOW_ORG_ID env_set \<noteq> [] \<and> LANGFLOW_TOKEN env_set \<noteq> []"
    by (simp add: env_set_config)
  have req: "request_text (asking '' hi '') = Some '' hi ''" "trim '' hi '' \<noteq> []"
    by (simp_all add: asking_text trim_hi)
  note th = chat_turn_posts_once [OF cfg req, where s = "mount env_set" and requestOptions = None
      and fetch = "answering mixed_reply"]
  note post = th [THEN conjunct1]
  note stage1 = th [THEN conjunct2, THEN conjunct1, rule_format]
  note found = th [THEN conjunct2, THEN conjunct2, THEN conjunct1, rule_format]
  note none_found = th [THEN conjunct2, THEN conjunct2, THEN conjunct2, THEN conjunct1, rule_format]
  note absent = th [THEN conjunct2, THEN conjunct2, THEN conjunct2, THEN conjunct2, THEN conjunct1,
      rule_format]
  note throws = th [THEN conjunct2, THEN conjunct2, THEN conjunct2, THEN conjunct2, THEN conjunct2,
      THEN conjunct1, rule_format]
  note shown = th [THEN conjunct2, THEN conjunct2, THEN conjunct2, THEN conjunct2, THEN conjunct2,
      THEN conjunct2, rule_format]
  from post obtain rq where rq:
    "wire (step env_set (mount env_set)
        (SendMessage (asking '' hi '') None (answering mixed_reply))) = [rq]"
    "http_method rq = ''POST''"
    "field ''input_value'' (Some (body rq)) = Some (JStr ''hi'')"
    "field ''session_id'' (Some (body rq)) = Some (JStr ''uuid-'')"
    by (auto simp: mount_env_set trim_hi simp del: step.simps)
  have v1: "visible_text (first_match (map (\<lambda>p. p (Some (langflow_reply '' yo ''))) reply_paths)) =
     Some ''yo''"
    by (simp add: first_match_langflow_reply visible_text_def trim_yo)
  have e1: "extractLangflowMessage (Some (langflow_reply '' yo '')) = Inr (Some ''yo'')"
    using v1 by (rule stage1)
  have v2: "visible_text (first_match (map (\<lambda>p. p (Some mixed_reply)) reply_paths)) = None"
    by (simp add: mixed_paths visible_text_def)
  have e2: "extractLangflowMessage (Some mixed_reply) = Inr (Some ''m0'')"
    by (rule found [where entries = "[entry_of [mixed_sub]]" and xs = "[]"])
      (simp add: v2 example_outputs mixed_scan trim_examples)
  have v3: "visible_text (first_match (map (\<lambda>p. p (Some late_reply)) reply_paths)) = None"
    by (simp add: late_paths visible_text_def)
  have e3: "extractLangflowMessage (Some late_reply) = Inr (Some ''late'')"
    by (rule found [where entries = "[entry_of [JObj []], entry_of [late_sub]]" and xs = "[]"])
      (use late_scan in \<open>simp add: v3 example_outputs trim_examples\<close>)
  have none_paths: "map (\<lambda>p. p (Some (reply_of [entry_of [JObj []]]))) reply_paths =
      [None, None, None, None]"
    by (simp add: reply_paths_def reply_of_def entry_of_def
        path_outputs_message_def path_artifacts_message_def path_messages_message_def
        path_results_text_def)
  have c4: "candidates [entry_of [JObj []]] = []" "entry_scannable (entry_of [JObj []])"
    by (simp_all add: entry_scannable_def sub_entry_scannable_def candidates_def
        entry_candidates_def sub_entry_candidates_def entry_of_def map_filter_simps)
  have e4: "extractLangflowMessage (Some (reply_of [entry_of [JObj []]])) = Inr None"
    using none_found [of "Some (reply_of [entry_of [JObj []]])" "[entry_of [JObj []]]"]
    by (simp add: none_paths visible_text_def reply_of_outputs c4)
  have empty_paths: "map (\<lambda>p. p (Some (JObj []))) reply_paths = [None, None, None, None]"
    by (simp add: reply_paths_def
        path_outputs_message_def path_artifacts_message_def path_messages_message_def
        path_results_text_def)
  have e5: "extractLangflowMessage (Some (JObj [])) = Inr None"
    using absent [of "Some (JObj [])"]
    by (simp add: empty_paths visible_text_def)
  have text_paths: "map (\<lambda>p. p (Some (JObj [(''outputs'', JStr ''x'')]))) reply_paths =
      [None, None, None, None]"
    by (simp add: reply_paths_def
        path_outputs_message_def path_artifacts_message_def path_messages_message_def
        path_results_text_def)
  have e6: "\<exists>err. extractLangflowMessage (Some (JObj [(''outputs'', JStr ''x'')])) = Inl err"
    using throws [of "Some (JObj [(''outputs'', JStr ''x'')])"]
    by (simp add: text_paths visible_text_def)
  have "\<exists>m. chat (step env_set (mount env_set)
        (SendMessage (asking '' hi '') None (answering mixed_reply))) =
          chat (mount env_set) @ [m] \<and> texts_of m = [''m0'']"
    by (rule shown [where d = mixed_reply and r = "\<lparr>ok = True, http_status = 200,
            statusText = ''OK'', response_text = [], response_json = Inr mixed_reply\<rparr>"])
      (simp add: ok_answer e2 trim_examples)
  then have e7: "map texts_of (chat (step env_set (mount env_set)
        (SendMessage (asking '' hi '') None (answering mixed_reply)))) = [[''m0'']]"
    by (auto simp: mount_env_set simp del: step.simps)
  from rq cfg v1 e1 v2 e2 e3 c4(1) e4 e5 e6 e7 show ?thesis
    by (simp add: asking_text trim_hi mixed_scan late_scan del: step.simps)
qed

section \<open>Updates of the uploaded-files list\<close>

lemma fst_nextFiles_Cons:
  "fst (nextFiles e k (f # fs)) =
     \<lparr>entry_id = fst (makeId e k), entry_file = f, entry_name = file_name f,
      entry_size = file_size f, createdAt = Date_now e (snd (makeId e k)),
      status = ''uploading'', completedAt = None, astraResponse = None,
      errorMessage = None\<rparr> # fst (nextFiles e (Suc (snd (makeId e k))) fs)"
  by (simp add: split_beta Let_def)

lemma snd_nextFiles_Cons:
  "snd (nextFiles e k (f # fs)) = snd (nextFiles e (Suc (snd (makeId e k))) fs)"
  by (simp add: split_beta Let_def)

lemma fst_settle_Cons:
  "fst (settle e i r k (item # prev)) =
     (if entry_id item \<noteq> i then item # fst (settle e i r k prev)
      else if success r \<or> skipped r then
        item\<lparr>status := ''complete'', completedAt := Some (Date_now e k),
             astraResponse := Some (case result_data r of None \<Rightarrow> JNull | Some d \<Rightarrow> d)\<rparr>
          # fst (settle e i r (Suc k) prev)
      else
        item\<lparr>status := ''error'',
             errorMessage := Some (case Option.bind (result_error r) error_message of
                                     None \<Rightarrow> ''Failed to ingest file.'' | Some m \<Rightarrow> m)\<rparr>
          # fst (settle e i r k prev))"
  by (simp add: split_beta Let_def)

lemma snd_settle_Cons:
  "snd (settle e i r k (item # prev)) =
     (if entry_id item = i \<and> (success r \<or> skipped r)
      then snd (settle e i r (Suc k) prev) else snd (settle e i r k prev))"
  by (simp add: split_beta Let_def)

lemma nextFiles_status:
  "x \<in> set (fst (nextFiles e k fs)) \<Longrightarrow> status x = ''uploading''"
proof (induction fs arbitrary: k)
  case Nil
  then show ?case by simp
next
  case (Cons f fs)
  then show ?case
    unfolding fst_nextFiles_Cons by auto
qed

lemma settle_ids: "map entry_id (fst (settle e i r k prev)) = map entry_id prev"
proof (induction prev arbitrary: k)
  case Nil
  then show ?case by simp
next
  case (Cons item prev)
  then show ?case
    unfolding fst_settle_Cons by simp
qed

lemma settle_status:
  "x \<in> set (fst (settle e i r k prev)) \<Longrightarrow>
     x \<in> set prev \<or> status x = ''complete'' \<or> status x = ''error''"
proof (induction prev arbitrary: k)
  case Nil
  then show ?case by simp
next
  case (Cons item prev)
  from Cons.prems show ?case
    unfolding fst_settle_Cons using Cons.IH
    by (auto split: if_splits)
qed

lemma settle_member:
  assumes "x \<in> set (fst (settle e i r k (item # prev)))" and "entry_id x = i"
    and "success r \<or> skipped r"
  shows "(entry_id item = i \<and>
          x = item\<lparr>status := ''complete'', completedAt := Some (Date_now e k),
             astraResponse := Some (case result_data r of None \<Rightarrow> JNull | Some d \<Rightarrow> d)\<rparr>) \<or>
         (\<exists>k'. x \<in> set (fst (settle e i r k' prev)))"
proof (cases "entry_id item = i")
  case True
  with assms have "x \<in> set (item\<lparr>status := ''complete'', completedAt := Some (Date_now e k),
             astraResponse := Some (case result_data r of None \<Rightarrow> JNull | Some d \<Rightarrow> d)\<rparr>
          # fst (settle e i r (Suc k) prev))"
    by (simp add: fst_settle_Cons del: settle.simps)
  with True show ?thesis by auto
next
  case False
  with assms have "x \<in> set (item # fst (settle e i r k prev))"
    by (simp add: fst_settle_Cons del: settle.simps)
  with False assms(2) show ?thesis by auto
qed

lemma settle_done:
  assumes "success r \<or> skipped r"
  shows "x \<in> set (fst (settle e i r k prev)) \<Longrightarrow> entry_id x = i \<Longrightarrow>
         status x = ''complete'' \<and> (\<exists>j. completedAt x = Some (Date_now e j)) \<and>
         astraResponse x = Some (case result_data r of None \<Rightarrow> JNull | Some d \<Rightarrow> d)"
proof (induction prev arbitrary: k)
  case Nil
  then show ?case by simp
next
  case (Cons item prev)
  from settle_member [OF Cons.prems assms]
  show ?case
  proof
    assume "entry_id item = i \<and>
          x = item\<lparr>status := ''complete'', completedAt := Some (Date_now e k),
             astraResponse := Some (case result_data r of None \<Rightarrow> JNull | Some d \<Rightarrow> d)\<rparr>"
    then show ?thesis by auto
  next
    assume "\<exists>k'. x \<in> set (fst (settle e i r k' prev))"
    then obtain k' where "x \<in> set (fst (settle e i r k' prev))" ..
    then show ?thesis using Cons.prems(2) by (rule Cons.IH)
  qed
qed

lemma uploadedFiles_FilesSelected:
  "uploadedFiles (step e s (FilesSelected fs)) = uploadedFiles s @ fst (nextFiles e (tick s) fs)"
  by (cases fs) (simp_all add: handleFilesSelected_def split_beta Let_def)

lemma uploadedFiles_TimerFired:
  "uploadedFiles (step e s (TimerFired i fetch)) =
     (if i < length (timers s)
      then fst (settle e (entry_id (timers s ! i))
                  (fst (ingestFileToAstra e fetch (tick s) (entry_file (timers s ! i))))
                  (tick_after (snd (ingestFileToAstra e fetch (tick s) (entry_file (timers s ! i)))))
                  (uploadedFiles s))
      else uploadedFiles s)"
  by (simp add: timer_callback_def split_beta Let_def)

lemma uploadedFiles_RemoveFile:
  "uploadedFiles (step e s (RemoveFile fileId)) =
     filter (\<lambda>f. entry_id f \<noteq> fileId) (uploadedFiles s)"
  by (simp add: handleRemoveFile_def)

lemma funpow_regenerate_files:
  "uploadedFiles ((regenerateSessionId e ^^ n) s) = uploadedFiles s"
  by (induction n) (simp_all add: regenerateSessionId_def split_beta)

lemma uploadedFiles_other:
  "uploadedFiles (step e s Render) = uploadedFiles s"
  "uploadedFiles (step e s BeforeRender) = uploadedFiles s"
  "uploadedFiles (step e s Reset) = uploadedFiles s"
  "uploadedFiles (step e s (SendMessage request requestOptions fetch)) = uploadedFiles s"
  "uploadedFiles (step e s (TestAstraConnection fetch)) = uploadedFiles s"
  by (simp_all add: handleBeforeRender_def funpow_regenerate_files split_beta)

lemmas uploadedFiles_step =
  uploadedFiles_FilesSelected uploadedFiles_TimerFired uploadedFiles_RemoveFile
  uploadedFiles_other

lemma step_keeps_status:
  assumes "\<forall>x\<in>set (uploadedFiles s). status x \<in> {''uploading'', ''complete'', ''error''}"
  shows "\<forall>x\<in>set (uploadedFiles (step e s ev)). status x \<in> {''uploading'', ''complete'', ''error''}"
proof (cases ev)
  case (FilesSelected fs)
  then show ?thesis
    using assms nextFiles_status [of _ e "tick s" fs]
    by (auto simp: uploadedFiles_FilesSelected simp del: step.simps)
next
  case (TimerFired i fetch)
  show ?thesis
  proof (cases "i < length (timers s)")
    case True
    show ?thesis
    proof
      fix x
      assume "x \<in> set (uploadedFiles (step e s ev))"
      then have "x \<in> set (uploadedFiles s) \<or> status x = ''complete'' \<or> status x = ''error''"
        unfolding TimerFired uploadedFiles_TimerFired using True
        by (simp only: if_True) (rule settle_status)
      then show "status x \<in> {''uploading'', ''complete'', ''error''}"
        using assms by auto
    qed
  next
    case False
    then show ?thesis
      using assms TimerFired by (simp only: uploadedFiles_TimerFired if_False)
  qed
next
  case (RemoveFile fileId)
  then show ?thesis
    using assms by (auto simp: uploadedFiles_RemoveFile simp del: step.simps)
qed (use assms in \<open>simp_all add: uploadedFiles_other del: step.simps\<close>)

lemma run_Nil: "run e s [] = s"
  by (simp add: run_def)

lemma run_Cons: "run e s (ev # evs) = run e (step e s ev) evs"
  by (simp add: run_def)

lemma run_snoc: "run e s (evs @ [ev]) = step e (run e s evs) ev"
  by (simp add: run_def)

lemma mount_files: "uploadedFiles (mount e) = []"
  by (simp add: mount_def split_beta)

section \<open>The status of an entry\<close>

text \<open>
  C6. In every state the page can reach from mounting, the status of every entry of the
  uploaded-files list is \<open>uploading\<close>, \<open>complete\<close> or \<open>error\<close>; and every event keeps
  this so, whatever state it starts from: adding files, an ingestion that completes or
  fails, removing a file, and the events that do not touch the list.
\<close>

theorem status_enumerated:
  "(\<forall>x\<in>set (uploadedFiles (run e (mount e) evs)).
      status x \<in> {''uploading'', ''complete'', ''error''}) \<and>
   ((\<forall>x\<in>set (uploadedFiles s). status x \<in> {''uploading'', ''complete'', ''error''}) \<longrightarrow>
    (\<forall>x\<in>set (uploadedFiles (step e s ev)).
       status x \<in> {''uploading'', ''complete'', ''error''}))"
proof
  show "\<forall>x\<in>set (uploadedFiles (run e (mount e) evs)).
      status x \<in> {''uploading'', ''complete'', ''error''}"
  proof (induction evs rule: rev_induct)
    case Nil
    then show ?case by (simp add: run_Nil mount_files)
  next
    case (snoc ev evs)
    then show ?case
      unfolding run_snoc by (rule step_keeps_status)
  qed
  show "(\<forall>x\<in>set (uploadedFiles s). status x \<in> {''uploading'', ''complete'', ''error''}) \<longrightarrow>
    (\<forall>x\<in>set (uploadedFiles (step e s ev)).
       status x \<in> {''uploading'', ''complete'', ''error''})"
    using step_keeps_status by blast
qed


theorem status_enumerated_witness:
  "map status (uploadedFiles (step env_set (mount env_set) (FilesSelected [notes_txt]))) =
     [''uploading''] \<and>
   map status (uploadedFiles (run env_set (mount env_set)
     [FilesSelected [notes_txt], TimerFired 0 offline])) = [''error''] \<and>
   set (map status (uploadedFiles (run env_set (mount env_set)
     [FilesSelected [notes_txt], TimerFired 0 offline]))) \<subseteq>
     {''uploading'', ''complete'', ''error''} \<and>
   set (map status (uploadedFiles (step env_set
     (step env_set (mount env_set) (FilesSelected [notes_txt])) (RemoveFile ''uuid-'')))) \<subseteq>
     {''uploading'', ''complete'', ''error''}"
proof -
  note th = status_enumerated [where e = env_set
      and evs = "[FilesSelected [notes_txt], TimerFired 0 offline]"
      and s = "step env_set (mount env_set) (FilesSelected [notes_txt])"
      and ev = "RemoveFile ''uuid-''"]
  have one: "map status (uploadedFiles (step env_set (mount env_set) (FilesSelected [notes_txt]))) =
     [''uploading'']"
    by (simp add: uploadedFiles_FilesSelected mount_env_set fst_nextFiles_Cons
        del: step.simps nextFiles.simps(2))
  have two: "map status (uploadedFiles (run env_set (mount env_set)
     [FilesSelected [notes_txt], TimerFired 0 offline])) = [''error'']"
    by (simp add: run_def mount_def createSessionId_def makeId_def env_set_def env_unset_def
        handleFilesSelected_def timer_callback_def ingestFileToAstra_def config_defs
        readFileAsBase64_def notes_txt_def offline_def ingestion_caught_def split_beta Let_def)
  from th one two show ?thesis
    by auto
qed

section \<open>Timers and the example page\<close>

lemma timers_FilesSelected:
  "timers (step e s (FilesSelected fs)) = timers s @ fst (nextFiles e (tick s) fs)"
  by (cases fs) (simp_all add: handleFilesSelected_def split_beta Let_def)

lemma wire_TimerFired:
  "wire (step e s (TimerFired i fetch)) =
     (if i < length (timers s)
      then wire s @ requests (snd (ingestFileToAstra e fetch (tick s) (entry_file (timers s ! i))))
      else wire s)"
  by (simp add: timer_callback_def split_beta Let_def)

lemma mount_env_unset:
  "sessionRef (mount env_unset) = ''uuid-''" "chat (mount env_unset) = []"
  "wire (mount env_unset) = []" "tick (mount env_unset) = 1"
  "uploadedFiles (mount env_unset) = []" "timers (mount env_unset) = []"
  by (simp_all add: mount_def createSessionId_def env_unset_def)

lemma nextFiles_notes:
  "nextFiles env_unset (Suc 0) [notes_txt] =
     ([\<lparr>entry_id = ''uuid-x'', entry_file = notes_txt, entry_name = ''notes.txt'',
        entry_size = Some 5, createdAt = 1002, status = ''uploading'', completedAt = None,
        astraResponse = None, errorMessage = None\<rparr>], 3)"
  "nextFiles env_set (Suc 0) [notes_txt] =
     ([\<lparr>entry_id = ''uuid-x'', entry_file = notes_txt, entry_name = ''notes.txt'',
        entry_size = Some 5, createdAt = 1002, status = ''uploading'', completedAt = None,
        astraResponse = None, errorMessage = None\<rparr>], 3)"
  by (simp_all add: makeId_def env_set_def env_unset_def notes_txt_def)

lemma one_selected_env_set:
  "uploadedFiles (one_selected env_set) =
     [\<lparr>entry_id = ''uuid-x'', entry_file = notes_txt, entry_name = ''notes.txt'',
       entry_size = Some 5, createdAt = 1002, status = ''uploading'', completedAt = None,
       astraResponse = None, errorMessage = None\<rparr>]"
  "timers (one_selected env_set) = uploadedFiles (one_selected env_set)"
  "tick (one_selected env_set) = 4"
  "wire (one_selected env_set) = []"
  by (simp_all add: one_selected_def handleFilesSelected_def mount_env_set nextFiles_notes
      del: nextFiles.simps)

lemma one_selected_env_unset:
  "uploadedFiles (one_selected env_unset) =
     [\<lparr>entry_id = ''uuid-x'', entry_file = notes_txt, entry_name = ''notes.txt'',
       entry_size = Some 5, createdAt = 1002, status = ''uploading'', completedAt = None,
       astraResponse = None, errorMessage = None\<rparr>]"
  "timers (one_selected env_unset) = uploadedFiles (one_selected env_unset)"
  "tick (one_selected env_unset) = 4"
  "wire (one_selected env_unset) = []"
  by (simp_all add: one_selected_def handleFilesSelected_def mount_env_unset nextFiles_notes
      del: nextFiles.simps)

lemma ingest_notes_answered:
  "success (fst (ingestFileToAstra env_set (answering (JObj [])) k notes_txt))"
  by (simp add: ingestFileToAstra_def env_set_config readFileAsBase64_def notes_txt_def
      answering_def Let_def)

lemma env_unset_skips:
  "ASTRA_DB_API_ENDPOINT env_unset = [] \<or> ASTRA_DB_KEYSPACE env_unset = [] \<or>
   ASTRA_DB_COLLECTION env_unset = [] \<or> ASTRA_DB_TOKEN env_unset = []"
  by (simp add: env_unset_config)

section \<open>A successful upload\<close>

text \<open>
  C2. Every entry that \<open>handleFilesSelected\<close> appends has status \<open>uploading\<close>, and a
  timer is started for each of them. When the timer of an entry runs and
  \<open>ingestFileToAstra\<close> reports success, the update that follows keeps the list's
  entries and sets every entry with that identifier to status \<open>complete\<close> with a
  \<open>completedAt\<close> time read from the clock.
\<close>

theorem successful_upload_completes:
  "(\<forall>x\<in>set (drop (length (uploadedFiles s)) (uploadedFiles (step e s (FilesSelected fs)))).
      status x = ''uploading'') \<and>
   timers (step e s (FilesSelected fs)) =
     timers s @ drop (length (uploadedFiles s)) (uploadedFiles (step e s (FilesSelected fs))) \<and>
   (i < length (timers s) \<and>
    success (fst (ingestFileToAstra e fetch (tick s) (entry_file (timers s ! i)))) \<longrightarrow>
      map entry_id (uploadedFiles (step e s (TimerFired i fetch))) =
        map entry_id (uploadedFiles s) \<and>
      (\<forall>x\<in>set (uploadedFiles (step e s (TimerFired i fetch))).
         entry_id x = entry_id (timers s ! i) \<longrightarrow>
           status x = ''complete'' \<and> (\<exists>j. completedAt x = Some (Date_now e j))))"
proof (intro conjI impI)
  show "\<forall>x\<in>set (drop (length (uploadedFiles s)) (uploadedFiles (step e s (FilesSelected fs)))).
      status x = ''uploading''"
    by (simp add: uploadedFiles_FilesSelected nextFiles_status del: step.simps)
  show "timers (step e s (FilesSelected fs)) =
     timers s @ drop (length (uploadedFiles s)) (uploadedFiles (step e s (FilesSelected fs)))"
    by (simp add: uploadedFiles_FilesSelected timers_FilesSelected del: step.simps)
next
  assume h: "i < length (timers s) \<and>
    success (fst (ingestFileToAstra e fetch (tick s) (entry_file (timers s ! i))))"
  then show "map entry_id (uploadedFiles (step e s (TimerFired i fetch))) =
        map entry_id (uploadedFiles s)"
    by (simp add: uploadedFiles_TimerFired settle_ids del: step.simps)
  show "\<forall>x\<in>set (uploadedFiles (step e s (TimerFired i fetch))).
         entry_id x = entry_id (timers s ! i) \<longrightarrow>
           status x = ''complete'' \<and> (\<exists>j. completedAt x = Some (Date_now e j))"
  proof (intro ballI impI)
    fix x
    assume "x \<in> set (uploadedFiles (step e s (TimerFired i fetch)))"
      and same: "entry_id x = entry_id (timers s ! i)"
    with h have "x \<in> set (fst (settle e (entry_id (timers s ! i))
                  (fst (ingestFileToAstra e fetch (tick s) (entry_file (timers s ! i))))
                  (tick_after (snd (ingestFileToAstra e fetch (tick s) (entry_file (timers s ! i)))))
                  (uploadedFiles s)))"
      by (simp add: uploadedFiles_TimerFired del: step.simps)
    from settle_done [OF _ this same] h
    show "status x = ''complete'' \<and> (\<exists>j. completedAt x = Some (Date_now e j))"
      by simp
  qed
qed

theorem successful_upload_completes_witness:
  "map status (uploadedFiles (step env_set (mount env_set) (FilesSelected [notes_txt]))) =
     [''uploading''] \<and>
   success (fst (ingestFileToAstra env_set (answering (JObj [])) (tick (one_selected env_set))
     (entry_file (timers (one_selected env_set) ! 0)))) \<and>
   map status (uploadedFiles (step env_set (one_selected env_set)
     (TimerFired 0 (answering (JObj []))))) = [''complete''] \<and>
   list_all (\<lambda>x. completedAt x \<noteq> None) (uploadedFiles (step env_set (one_selected env_set)
     (TimerFired 0 (answering (JObj [])))))"
proof -
  have ok: "success (fst (ingestFileToAstra env_set (answering (JObj []))
      (tick (one_selected env_set)) (entry_file (timers (one_selected env_set) ! 0))))"
    by (simp add: one_selected_env_set ingest_notes_answered)
  have first: "map status (uploadedFiles (step env_set (mount env_set) (FilesSelected [notes_txt]))) =
     [''uploading'']"
    using one_selected_env_set(1) by (simp add: one_selected_def del: step.simps)
  note th = successful_upload_completes [where e = env_set and s = "one_selected env_set"
      and i = 0 and fetch = "answering (JObj [])" and fs = "[]"]
  from th ok have ids: "map entry_id (uploadedFiles (step env_set (one_selected env_set)
       (TimerFired 0 (answering (JObj []))))) = [''uuid-x'']"
    and each: "\<forall>x\<in>set (uploadedFiles (step env_set (one_selected env_set)
       (TimerFired 0 (answering (JObj []))))). entry_id x = ''uuid-x'' \<longrightarrow>
         status x = ''complete'' \<and> (\<exists>j. completedAt x = Some (Date_now env_set j))"
    by (simp_all add: one_selected_env_set del: step.simps)
  from ids obtain x where x: "uploadedFiles (step env_set (one_selected env_set)
       (TimerFired 0 (answering (JObj [])))) = [x]" "entry_id x = ''uuid-x''"
    by (auto simp: map_eq_Cons_conv simp del: step.simps)
  with each have "status x = ''complete''" "completedAt x \<noteq> None"
    by (auto simp del: step.simps)
  with x ok first show ?thesis
    by (simp del: step.simps)
qed

section \<open>An ingestion skipped for want of configuration\<close>

text \<open>
  C9. When a document-store value is the empty string, \<open>ingestFileToAstra\<close> answers
  with a skipped result that is not a success and passes nothing to \<open>fetch\<close>; the
  timer of an entry then sends no request and sets the entry to status \<open>complete\<close>
  with a null \<open>astraResponse\<close>, never to \<open>error\<close>. The sidebar shows it with the
  same tag as an entry settled by a successful ingestion.
\<close>

theorem skipped_ingestion_shows_complete:
  assumes "ASTRA_DB_API_ENDPOINT e = [] \<or> ASTRA_DB_KEYSPACE e = [] \<or>
           ASTRA_DB_COLLECTION e = [] \<or> ASTRA_DB_TOKEN e = []"
  shows "\<not> success (fst (ingestFileToAstra e fetch k f)) \<and>
         skipped (fst (ingestFileToAstra e fetch k f)) \<and>
         requests (snd (ingestFileToAstra e fetch k f)) = [] \<and>
         (i < length (timers s) \<longrightarrow>
            wire (step e s (TimerFired i fetch)) = wire s \<and>
            (\<forall>x\<in>set (uploadedFiles (step e s (TimerFired i fetch))).
               entry_id x = entry_id (timers s ! i) \<longrightarrow>
                 status x = ''complete'' \<and> astraResponse x = Some JNull \<and>
                 status_view x = Uploaded_tag)) \<and>
         (\<forall>r x j k' prev. success r \<and> x \<in> set (fst (settle e j r k' prev)) \<and> entry_id x = j \<longrightarrow>
            status_view x = Uploaded_tag)"
proof -
  have skip: "ingestFileToAstra e fetch k f =
      (\<lparr>success = False, skipped = True,
        result_message = Some ''Astra DB configuration missing. Skipping ingestion.'',
        result_data = None, result_error = None\<rparr>,
       \<lparr>requests = [], added = [],
        logged = [console_warn ''Astra DB configuration missing. Skipping ingestion.''],
        tick_after = k\<rparr>)" for k f
    using assms by (simp add: ingestFileToAstra_def Let_def)
  have timer: "wire (step e s (TimerFired i fetch)) = wire s \<and>
            (\<forall>x\<in>set (uploadedFiles (step e s (TimerFired i fetch))).
               entry_id x = entry_id (timers s ! i) \<longrightarrow>
                 status x = ''complete'' \<and> astraResponse x = Some JNull \<and>
                 status_view x = Uploaded_tag)" if i: "i < length (timers s)"
  proof (intro conjI ballI impI)
    show "wire (step e s (TimerFired i fetch)) = wire s"
      using i by (simp add: wire_TimerFired skip del: step.simps)
    fix x
    assume "x \<in> set (uploadedFiles (step e s (TimerFired i fetch)))"
      and same: "entry_id x = entry_id (timers s ! i)"
    with i have "x \<in> set (fst (settle e (entry_id (timers s ! i))
                  \<lparr>success = False, skipped = True,
                    result_message = Some ''Astra DB configuration missing. Skipping ingestion.'',
                    result_data = None, result_error = None\<rparr>
                  (tick s) (uploadedFiles s)))"
      by (simp add: uploadedFiles_TimerFired skip del: step.simps)
    from settle_done [OF _ this same]
    have settled: "status x = ''complete'' \<and> astraResponse x = Some JNull"
      by simp
    then show "status x = ''complete''" "astraResponse x = Some JNull"
      "status_view x = Uploaded_tag"
      by (simp_all add: status_view_def)
  qed
  have shown: "status_view x = Uploaded_tag"
    if "success r \<and> x \<in> set (fst (settle e j r k' prev)) \<and> entry_id x = j" for r x j k' prev
  proof -
    from that have "success r \<or> skipped r" "x \<in> set (fst (settle e j r k' prev))" "entry_id x = j"
      by simp_all
    from settle_done [OF this] show ?thesis
      by (simp add: status_view_def)
  qed
  have p1: "\<not> success (fst (ingestFileToAstra e fetch k f))"
    and p2: "skipped (fst (ingestFileToAstra e fetch k f))"
    and p3: "requests (snd (ingestFileToAstra e fetch k f)) = []"
    by (simp_all add: skip)
  have p4: "i < length (timers s) \<longrightarrow>
            wire (step e s (TimerFired i fetch)) = wire s \<and>
            (\<forall>x\<in>set (uploadedFiles (step e s (TimerFired i fetch))).
               entry_id x = entry_id (timers s ! i) \<longrightarrow>
                 status x = ''complete'' \<and> astraResponse x = Some JNull \<and>
                 status_view x = Uploaded_tag)"
    using timer by (rule impI)
  have p5: "\<forall>r x j k' prev. success r \<and> x \<in> set (fst (settle e j r k' prev)) \<and> entry_id x = j \<longrightarrow>
            status_view x = Uploaded_tag"
    using shown by (intro allI impI)
  show ?thesis
    by (intro conjI p1 p2 p3 p4 p5)
qed


theorem skipped_ingestion_shows_complete_witness:
  "ASTRA_DB_API_ENDPOINT env_unset = [] \<and>
   skipped (fst (ingestFileToAstra env_unset offline 4 notes_txt)) \<and>
   requests (snd (ingestFileToAstra env_unset offline 4 notes_txt)) = [] \<and>
   wire (step env_unset (one_selected env_unset) (TimerFired 0 offline)) = [] \<and>
   map (\<lambda>x. (status x, astraResponse x, status_view x))
     (uploadedFiles (step env_unset (one_selected env_unset) (TimerFired 0 offline))) =
     [(''complete'', Some JNull, Uploaded_tag)] \<and>
   map status_view
     (fst (settle env_unset ''uuid-x''
        \<lparr>success = True, skipped = False, result_message = None,
         result_data = Some (JObj []), result_error = None\<rparr>
        4 (uploadedFiles (one_selected env_unset)))) = [Uploaded_tag]"
proof -
  note th = skipped_ingestion_shows_complete [OF env_unset_skips, where fetch = offline
      and k = 4 and f = notes_txt and s = "one_selected env_unset" and i = 0]
  have ids: "map entry_id (uploadedFiles (step env_unset (one_selected env_unset)
       (TimerFired 0 offline))) = [''uuid-x'']"
    by (simp add: uploadedFiles_TimerFired settle_ids one_selected_env_unset del: step.simps)
  then obtain x where x: "uploadedFiles (step env_unset (one_selected env_unset)
       (TimerFired 0 offline)) = [x]" "entry_id x = ''uuid-x''"
    by (auto simp: map_eq_Cons_conv simp del: step.simps)
  with th have skippedx: "status x = ''complete''" "astraResponse x = Some JNull"
    "status_view x = Uploaded_tag"
    by (simp_all add: one_selected_env_unset del: step.simps)
  have "map entry_id (fst (settle env_unset ''uuid-x''
        \<lparr>success = True, skipped = False, result_message = None,
         result_data = Some (JObj []), result_error = None\<rparr>
        4 (uploadedFiles (one_selected env_unset)))) = [''uuid-x'']"
    by (simp add: settle_ids one_selected_env_unset del: settle.simps)
  then obtain y where y: "fst (settle env_unset ''uuid-x''
        \<lparr>success = True, skipped = False, result_message = None,
         result_data = Some (JObj []), result_error = None\<rparr>
        4 (uploadedFiles (one_selected env_unset))) = [y]" "entry_id y = ''uuid-x''"
    by (auto simp: map_eq_Cons_conv simp del: settle.simps)
  have "status_view y = Uploaded_tag"
    by (rule th [THEN conjunct2, THEN conjunct2, THEN conjunct2, THEN conjunct2, rule_format,
          where r = "\<lparr>success = True, skipped = False, result_message = None,
            result_data = Some (JObj []), result_error = None\<rparr>" and j = "''uuid-x''"
          and k' = 4 and prev = "uploadedFiles (one_selected env_unset)"])
      (simp add: y del: settle.simps)
  with th x y skippedx show ?thesis
    by (simp add: env_unset_config one_selected_env_unset del: step.simps settle.simps)
qed

section \<open>The session reference across events\<close>

lemma funpow_regenerate_handlers:
  "reset_handlers ((regenerateSessionId e ^^ n) s) = reset_handlers s"
  "resetRegisteredRef ((regenerateSessionId e ^^ n) s) = resetRegisteredRef s"
  "wire ((regenerateSessionId e ^^ n) s) = wire s"
  by (induction n) (simp_all add: regenerateSessionId_def split_beta)

lemma sessionRef_step:
  "ev \<noteq> Reset \<Longrightarrow> sessionRef (step e s ev) = sessionRef s"
  by (cases ev)
    (simp_all add: handleBeforeRender_def handleFilesSelected_def timer_callback_def
      handleRemoveFile_def split_beta Let_def)

lemma handlers_step:
  "ev \<noteq> BeforeRender \<Longrightarrow>
     reset_handlers (step e s ev) = reset_handlers s \<and>
     resetRegisteredRef (step e s ev) = resetRegisteredRef s"
  by (cases ev)
    (simp_all add: funpow_regenerate_handlers handleFilesSelected_def timer_callback_def
      handleRemoveFile_def split_beta Let_def)

lemma handlers_run:
  "reset_handlers (run e (mount e) evs) = (if BeforeRender \<in> set evs then 1 else 0) \<and>
   resetRegisteredRef (run e (mount e) evs) = (BeforeRender \<in> set evs)"
proof (induction evs rule: rev_induct)
  case Nil
  then show ?case by (simp add: run_Nil mount_def split_beta)
next
  case (snoc ev evs)
  show ?case
  proof (cases "ev = BeforeRender")
    case True
    with snoc show ?thesis
      by (simp add: run_snoc handleBeforeRender_def)
  next
    case False
    with snoc handlers_step [OF False, of e "run e (mount e) evs"] show ?thesis
      by (simp add: run_snoc del: step.simps)
  qed
qed

lemma sessionRef_Reset:
  "reset_handlers s = Suc 0 \<Longrightarrow> sessionRef (step e s Reset) = fst (createSessionId e (tick s))"
  by (simp add: regenerateSessionId_def split_beta)

lemma insertMany_no_input: "field ''input_value'' (Some (body (insertMany_request e doc))) = None"
  by (simp add: insertMany_request_def)

lemma findOne_no_input: "field ''input_value'' (Some (body (findOne_request e))) = None"
  by (simp add: findOne_request_def)

lemma ingest_requests:
  "rq \<in> set (requests (snd (ingestFileToAstra e fetch k f))) \<Longrightarrow>
     \<exists>doc. rq = insertMany_request e doc"
  by (auto simp: ingestFileToAstra_def ingestion_caught_def Let_def
      split: if_splits sum.splits fetch_outcome.splits)

lemma test_requests:
  "rq \<in> set (requests (snd (testAstraConnection e fetch k))) \<Longrightarrow> rq = findOne_request e"
  by (auto simp: testAstraConnection_def Let_def split: if_splits fetch_outcome.splits)

lemma send_requests_session:
  assumes "rq \<in> set (requests (snd (customSendMessage e fetch sid k request requestOptions)))"
  shows "field ''session_id'' (Some (body rq)) = Some (JStr sid)"
  using assms
  by (auto simp: send_requests langflow_request_def payload_def split: option.splits if_splits)

lemma wire_step:
  "\<exists>new. wire (step e s ev) = wire s @ new \<and>
     (\<forall>rq\<in>set new. field ''input_value'' (Some (body rq)) \<noteq> None \<longrightarrow>
        field ''session_id'' (Some (body rq)) = Some (JStr (sessionRef s)))"
proof (cases ev)
  case (SendMessage request requestOptions fetch)
  show ?thesis
    unfolding SendMessage step_SendMessage
    using send_requests_session by fastforce
next
  case (TimerFired i fetch)
  show ?thesis
    unfolding TimerFired wire_TimerFired
    using ingest_requests insertMany_no_input by fastforce
next
  case (TestAstraConnection fetch)
  have "wire (step e s (TestAstraConnection fetch)) =
          wire s @ requests (snd (testAstraConnection e fetch (tick s)))"
    by (simp add: split_beta)
  then show ?thesis
    unfolding TestAstraConnection
    using test_requests findOne_no_input by fastforce
qed (simp_all add: funpow_regenerate_handlers handleBeforeRender_def handleFilesSelected_def
      handleRemoveFile_def split_beta)

lemma run_without_reset:
  assumes "Reset \<notin> set evs"
  shows "sessionRef (run e s evs) = sessionRef s \<and>
         (\<exists>new. wire (run e s evs) = wire s @ new \<and>
            (\<forall>rq\<in>set new. field ''input_value'' (Some (body rq)) \<noteq> None \<longrightarrow>
               field ''session_id'' (Some (body rq)) = Some (JStr (sessionRef s))))"
  using assms
proof (induction evs rule: rev_induct)
  case Nil
  then show ?case by (simp add: run_Nil)
next
  case (snoc ev evs)
  then have ev: "ev \<noteq> Reset" and evs: "Reset \<notin> set evs"
    by auto
  from snoc.IH [OF evs] obtain new where
    sid: "sessionRef (run e s evs) = sessionRef s" and
    w: "wire (run e s evs) = wire s @ new" and
    n: "\<forall>rq\<in>set new. field ''input_value'' (Some (body rq)) \<noteq> None \<longrightarrow>
               field ''session_id'' (Some (body rq)) = Some (JStr (sessionRef s))"
    by blast
  from wire_step [of e "run e s evs" ev] obtain more where
    w': "wire (step e (run e s evs) ev) = wire (run e s evs) @ more" and
    m: "\<forall>rq\<in>set more. field ''input_value'' (Some (body rq)) \<noteq> None \<longrightarrow>
               field ''session_id'' (Some (body rq)) = Some (JStr (sessionRef (run e s evs)))"
    by blast
  have "wire (run e s (evs @ [ev])) = wire s @ (new @ more)"
    by (simp add: run_snoc w w' del: step.simps)
  moreover have "\<forall>rq\<in>set (new @ more). field ''input_value'' (Some (body rq)) \<noteq> None \<longrightarrow>
               field ''session_id'' (Some (body rq)) = Some (JStr (sessionRef s))"
    using n m sid by auto
  moreover have "sessionRef (run e s (evs @ [ev])) = sessionRef s"
    by (simp add: run_snoc sessionRef_step [OF ev] sid del: step.simps)
  ultimately show ?case by blast
qed

lemma trim_letters: "trim ''a'' = ''a''" "trim ''b'' = ''b''"
  by (simp_all add: trim_def is_space_def)

lemma two_turns_wire:
  "wire (run env_set (mount env_set)
     [SendMessage (asking ''a'') None offline, SendMessage (asking ''b'') None offline]) =
   [langflow_request env_set (payload ''a'' ''uuid-'') None,
    langflow_request env_set (payload ''b'' ''uuid-'') None]"
  by (simp add: run_def step_SendMessage send_requests asking_text trim_letters env_set_config
      mount_env_set del: step.simps)

section \<open>The session identifier\<close>

text \<open>
  C5. The session identifier is one string, \<open>sessionRef\<close>. No event other than the
  RESET event changes it. Once \<open>handleBeforeRender\<close> has registered
  \<open>regenerateSessionId\<close>, the RESET event replaces it with the identifier that
  \<open>createSessionId\<close> generates at that moment. Over any sequence of events without a
  RESET the identifier stays what it was, and every chat request sent meanwhile carries
  it as \<open>session_id\<close>.
\<close>

theorem session_changes_only_on_reset:
  "(ev \<noteq> Reset \<longrightarrow> sessionRef (step e s ev) = sessionRef s) \<and>
   (BeforeRender \<in> set evs \<longrightarrow>
      sessionRef (step e (run e (mount e) evs) Reset) =
        fst (createSessionId e (tick (run e (mount e) evs)))) \<and>
   (Reset \<notin> set evs \<longrightarrow>
      sessionRef (run e s evs) = sessionRef s \<and>
      (\<forall>rq\<in>set (drop (length (wire s)) (wire (run e s evs))).
         field ''input_value'' (Some (body rq)) \<noteq> None \<longrightarrow>
           field ''session_id'' (Some (body rq)) = Some (JStr (sessionRef s))))"
proof (intro conjI impI)
  assume "ev \<noteq> Reset"
  then show "sessionRef (step e s ev) = sessionRef s"
    by (rule sessionRef_step)
next
  assume "BeforeRender \<in> set evs"
  then have "reset_handlers (run e (mount e) evs) = Suc 0"
    using handlers_run [of e evs] by simp
  then show "sessionRef (step e (run e (mount e) evs) Reset) =
        fst (createSessionId e (tick (run e (mount e) evs)))"
    by (rule sessionRef_Reset)
next
  assume r: "Reset \<notin> set evs"
  from run_without_reset [OF r, of e s]
  show "sessionRef (run e s evs) = sessionRef s" by blast
  from run_without_reset [OF r, of e s] obtain new where
    "wire (run e s evs) = wire s @ new"
    "\<forall>rq\<in>set new. field ''input_value'' (Some (body rq)) \<noteq> None \<longrightarrow>
               field ''session_id'' (Some (body rq)) = Some (JStr (sessionRef s))"
    by blast
  then show "\<forall>rq\<in>set (drop (length (wire s)) (wire (run e s evs))).
         field ''input_value'' (Some (body rq)) \<noteq> None \<longrightarrow>
           field ''session_id'' (Some (body rq)) = Some (JStr (sessionRef s))"
    by simp
qed


theorem session_changes_only_on_reset_witness:
  "sessionRef (mount env_set) = ''uuid-'' \<and>
   sessionRef (step env_set (mount env_set) (SendMessage (asking ''a'') None offline)) = ''uuid-'' \<and>
   BeforeRender \<in> set [BeforeRender] \<and>
   sessionRef (step env_set (run env_set (mount env_set) [BeforeRender]) Reset) = ''uuid-x'' \<and>
   Reset \<notin> set [SendMessage (asking ''a'') None offline, SendMessage (asking ''b'') None offline] \<and>
   map (\<lambda>rq. field ''session_id'' (Some (body rq)))
     (wire (run env_set (mount env_set)
        [SendMessage (asking ''a'') None offline, SendMessage (asking ''b'') None offline])) =
     [Some (JStr ''uuid-''), Some (JStr ''uuid-'')]"
proof -
  note th1 = session_changes_only_on_reset [where e = env_set and s = "mount env_set"
      and ev = "SendMessage (asking ''a'') None offline" and evs = "[BeforeRender]"]
  note th2 = session_changes_only_on_reset [where e = env_set and s = "mount env_set"
      and ev = Render
      and evs = "[SendMessage (asking ''a'') None offline, SendMessage (asking ''b'') None offline]"]
  have a: "sessionRef (step env_set (mount env_set) (SendMessage (asking ''a'') None offline)) =
      ''uuid-''"
    using th1 by (simp add: mount_env_set del: step.simps)
  have "tick (run env_set (mount env_set) [BeforeRender]) = 1"
    by (simp add: run_def handleBeforeRender_def mount_env_set)
  moreover have "fst (createSessionId env_set 1) = ''uuid-x''"
    by (simp add: createSessionId_def env_set_def env_unset_def)
  ultimately have b: "sessionRef (step env_set (run env_set (mount env_set) [BeforeRender]) Reset) =
      ''uuid-x''"
    using th1 by (simp del: step.simps)
  have nr: "Reset \<notin> set [SendMessage (asking ''a'') None offline,
      SendMessage (asking ''b'') None offline]"
    by simp
  from th2 nr have "\<forall>rq\<in>set (wire (run env_set (mount env_set)
        [SendMessage (asking ''a'') None offline, SendMessage (asking ''b'') None offline])).
      field ''input_value'' (Some (body rq)) \<noteq> None \<longrightarrow>
        field ''session_id'' (Some (body rq)) = Some (JStr ''uuid-'')"
    by (simp add: mount_env_set del: step.simps)
  then have c: "map (\<lambda>rq. field ''session_id'' (Some (body rq)))
     (wire (run env_set (mount env_set)
        [SendMessage (asking ''a'') None offline, SendMessage (asking ''b'') None offline])) =
     [Some (JStr ''uuid-''), Some (JStr ''uuid-'')]"
    by (simp add: two_turns_wire langflow_request_def payload_def)
  from a b c nr show ?thesis
    by (simp add: mount_env_set del: step.simps)
qed

section \<open>Ticks and identifiers\<close>

lemma makeId_tick: "k < snd (makeId e k)"
  by (simp add: makeId_def split: option.splits)

lemma createSessionId_tick: "k < snd (createSessionId e k)"
  by (simp add: createSessionId_def split: option.splits)

lemma buildTextResponse_tick: "k < snd (buildTextResponse e k t rid)"
proof -
  have "k < snd (makeId e k)" by (rule makeId_tick)
  also have "\<dots> < snd (makeId e (snd (makeId e k)))" by (rule makeId_tick)
  finally show ?thesis
    by (simp add: buildTextResponse_def split_beta Let_def)
qed

lemma send_tick: "k \<le> tick_after (snd (customSendMessage e fetch sid k request requestOptions))"
  using buildTextResponse_tick [of k e]
  by (auto simp: customSendMessage_def split_beta Let_def less_imp_le
      split: option.splits sum.splits)

lemma ingest_tick: "k \<le> tick_after (snd (ingestFileToAstra e fetch k f))"
  by (auto simp: ingestFileToAstra_def ingestion_caught_def Let_def
      split: sum.splits fetch_outcome.splits)

lemma settle_tick: "k \<le> snd (settle e i r k prev)"
proof (induction prev arbitrary: k)
  case Nil
  then show ?case by simp
next
  case (Cons item prev)
  have "k \<le> snd (settle e i r k prev)" "Suc k \<le> snd (settle e i r (Suc k) prev)"
    by (rule Cons.IH)+
  then show ?case
    unfolding snd_settle_Cons by simp
qed

lemma nextFiles_tick: "k \<le> snd (nextFiles e k fs)"
proof (induction fs arbitrary: k)
  case Nil
  then show ?case by simp
next
  case (Cons f fs)
  have "k < Suc (snd (makeId e k))"
    using makeId_tick [of k e] by simp
  also have "\<dots> \<le> snd (nextFiles e (Suc (snd (makeId e k))) fs)"
    by (rule Cons.IH)
  finally show ?case
    unfolding snd_nextFiles_Cons by simp
qed

lemma tick_regenerate: "tick (regenerateSessionId e s) = snd (createSessionId e (tick s))"
  by (simp add: regenerateSessionId_def split_beta)

lemma funpow_regenerate_tick: "tick s \<le> tick ((regenerateSessionId e ^^ n) s)"
proof (induction n)
  case 0
  then show ?case by simp
next
  case (Suc n)
  have "tick ((regenerateSessionId e ^^ n) s) <
        snd (createSessionId e (tick ((regenerateSessionId e ^^ n) s)))"
    by (rule createSessionId_tick)
  with Suc show ?case
    by (simp add: tick_regenerate)
qed

lemma tick_step: "tick s \<le> tick (step e s ev)"
proof (cases ev)
  case Render
  then show ?thesis
    using createSessionId_tick [of "tick s" e] by simp
next
  case BeforeRender
  then show ?thesis by (simp add: handleBeforeRender_def)
next
  case Reset
  then show ?thesis by (simp add: funpow_regenerate_tick)
next
  case (SendMessage request requestOptions fetch)
  then show ?thesis
    using send_tick [of "tick s" e fetch "sessionRef s" request requestOptions]
    by (simp add: split_beta)
next
  case (FilesSelected fs)
  then show ?thesis
    using nextFiles_tick [of "tick s" e fs]
    by (simp add: handleFilesSelected_def split_beta)
next
  case (TimerFired i fetch)
  show ?thesis
  proof (cases "i < length (timers s)")
    case True
    have "tick s \<le> tick_after (snd (ingestFileToAstra e fetch (tick s) (entry_file (timers s ! i))))"
      by (rule ingest_tick)
    also have "\<dots> \<le> snd (settle e (entry_id (timers s ! i))
        (fst (ingestFileToAstra e fetch (tick s) (entry_file (timers s ! i))))
        (tick_after (snd (ingestFileToAstra e fetch (tick s) (entry_file (timers s ! i)))))
        (uploadedFiles s))"
      by (rule settle_tick)
    finally show ?thesis
      using True TimerFired by (simp add: timer_callback_def split_beta Let_def)
  next
    case False
    with TimerFired show ?thesis by simp
  qed
next
  case (RemoveFile fileId)
  then show ?thesis by (simp add: handleRemoveFile_def)
next
  case (TestAstraConnection fetch)
  then show ?thesis by (simp add: split_beta)
qed

lemma nextFiles_ids:
  "x \<in> set (fst (nextFiles e k fs)) \<Longrightarrow>
     \<exists>j. k \<le> j \<and> j < snd (nextFiles e k fs) \<and> entry_id x = fst (makeId e j)"
proof (induction fs arbitrary: k)
  case Nil
  then show ?case by simp
next
  case (Cons f fs)
  let ?k' = "Suc (snd (makeId e k))"
  from Cons.prems consider "entry_id x = fst (makeId e k)"
    | "x \<in> set (fst (nextFiles e ?k' fs))"
    unfolding fst_nextFiles_Cons by auto
  then show ?case
  proof cases
    case 1
    have "k < ?k'" using makeId_tick [of k e] by simp
    also have "?k' \<le> snd (nextFiles e ?k' fs)" by (rule nextFiles_tick)
    finally have "k < snd (nextFiles e k (f # fs))"
      unfolding snd_nextFiles_Cons .
    with 1 show ?thesis by blast
  next
    case 2
    from Cons.IH [OF 2] obtain j where
      j: "?k' \<le> j" "j < snd (nextFiles e ?k' fs)" "entry_id x = fst (makeId e j)"
      by blast
    have "k < ?k'" using makeId_tick [of k e] by simp
    with j have "k \<le> j" by simp
    with j show ?thesis
      unfolding snd_nextFiles_Cons by blast
  qed
qed

lemma nextFiles_distinct:
  assumes "inj (\<lambda>k. fst (makeId e k))"
  shows "distinct (map entry_id (fst (nextFiles e k fs)))"
proof (induction fs arbitrary: k)
  case Nil
  then show ?case by simp
next
  case (Cons f fs)
  let ?k' = "Suc (snd (makeId e k))"
  have "fst (makeId e k) \<notin> entry_id ` set (fst (nextFiles e ?k' fs))"
  proof
    assume "fst (makeId e k) \<in> entry_id ` set (fst (nextFiles e ?k' fs))"
    then obtain x where "x \<in> set (fst (nextFiles e ?k' fs))" "entry_id x = fst (makeId e k)"
      by auto
    with nextFiles_ids obtain j where "?k' \<le> j" "fst (makeId e j) = fst (makeId e k)"
      by metis
    with assms have "j = k" by (simp add: inj_def)
    with \<open>?k' \<le> j\<close> makeId_tick [of k e] show False by simp
  qed
  with Cons.IH [of ?k'] show ?case
    unfolding fst_nextFiles_Cons by simp
qed


lemma ids_step:
  "map entry_id (uploadedFiles (step e s ev)) =
     (case ev of
        FilesSelected fs \<Rightarrow>
          map entry_id (uploadedFiles s) @ map entry_id (fst (nextFiles e (tick s) fs))
      | RemoveFile fileId \<Rightarrow> filter (\<lambda>i. i \<noteq> fileId) (map entry_id (uploadedFiles s))
      | _ \<Rightarrow> map entry_id (uploadedFiles s))"
proof (cases ev)
  case (FilesSelected fs)
  then show ?thesis
    by (simp add: uploadedFiles_FilesSelected del: step.simps)
next
  case (TimerFired i fetch)
  then show ?thesis
    by (simp add: uploadedFiles_TimerFired settle_ids del: step.simps)
next
  case (RemoveFile fileId)
  then show ?thesis
    by (simp add: uploadedFiles_RemoveFile filter_map comp_def del: step.simps)
qed (simp_all add: uploadedFiles_other del: step.simps)

lemma still_made:
  assumes "\<exists>j<k. i = fst (makeId e j)" and "k \<le> k'"
  shows "\<exists>j<k'. i = fst (makeId e j)"
proof -
  from assms(1) obtain j where "j < k" "i = fst (makeId e j)" by blast
  with assms(2) have "j < k'" "i = fst (makeId e j)" by simp_all
  then show ?thesis by blast
qed

lemma ids_invariant_subset:
  assumes "distinct (map entry_id (uploadedFiles s'))"
    and "set (map entry_id (uploadedFiles s')) \<subseteq> set (map entry_id (uploadedFiles s))"
    and "tick s \<le> tick s'"
    and "\<forall>i\<in>set (map entry_id (uploadedFiles s)). \<exists>j<tick s. i = fst (makeId e j)"
  shows "distinct (map entry_id (uploadedFiles s')) \<and>
         (\<forall>i\<in>set (map entry_id (uploadedFiles s')). \<exists>j<tick s'. i = fst (makeId e j))"
proof (intro conjI ballI)
  show "distinct (map entry_id (uploadedFiles s'))" by (rule assms(1))
  fix i
  assume "i \<in> set (map entry_id (uploadedFiles s'))"
  with assms(2) have "i \<in> set (map entry_id (uploadedFiles s))" by blast
  with assms(4) have "\<exists>j<tick s. i = fst (makeId e j)" by blast
  then show "\<exists>j<tick s'. i = fst (makeId e j)"
    using assms(3) by (rule still_made)
qed

lemma ids_invariant_step:
  assumes fresh: "inj (\<lambda>k. fst (makeId e k))"
    and d: "distinct (map entry_id (uploadedFiles s))"
    and o: "\<forall>i\<in>set (map entry_id (uploadedFiles s)). \<exists>j<tick s. i = fst (makeId e j)"
  shows "distinct (map entry_id (uploadedFiles (step e s ev))) \<and>
         (\<forall>i\<in>set (map entry_id (uploadedFiles (step e s ev))).
            \<exists>j<tick (step e s ev). i = fst (makeId e j))"
proof (cases ev)
  case (FilesSelected fs)
  let ?new = "fst (nextFiles e (tick s) fs)"
  have new: "\<exists>j. tick s \<le> j \<and> j < snd (nextFiles e (tick s) fs) \<and> i = fst (makeId e j)"
    if "i \<in> set (map entry_id ?new)" for i
    using that nextFiles_ids [of _ e "tick s" fs] by auto
  have t: "snd (nextFiles e (tick s) fs) \<le> tick (step e s ev)"
    unfolding FilesSelected by (cases fs) (simp_all add: handleFilesSelected_def split_beta)
  have disjoint: "set (map entry_id (uploadedFiles s)) \<inter> set (map entry_id ?new) = {}"
  proof (rule ccontr)
    assume "set (map entry_id (uploadedFiles s)) \<inter> set (map entry_id ?new) \<noteq> {}"
    then obtain i where i: "i \<in> set (map entry_id (uploadedFiles s))"
      "i \<in> set (map entry_id ?new)"
      by blast
    from o i(1) obtain j where j: "j < tick s" "i = fst (makeId e j)" by blast
    from new [OF i(2)] obtain j' where j': "tick s \<le> j'" "i = fst (makeId e j')" by blast
    from j j' fresh have "j = j'" by (simp add: inj_def)
    with j j' show False by simp
  qed
  have dist: "distinct (map entry_id (uploadedFiles (step e s ev)))"
    unfolding FilesSelected ids_step
    using d nextFiles_distinct [OF fresh, of "tick s" fs] disjoint by simp
  have own: "\<exists>j<tick (step e s ev). i = fst (makeId e j)"
    if "i \<in> set (map entry_id (uploadedFiles (step e s ev)))" for i
  proof -
    from that consider "i \<in> set (map entry_id (uploadedFiles s))"
      | "i \<in> set (map entry_id ?new)"
      unfolding FilesSelected ids_step by auto
    then show ?thesis
    proof cases
      case 1
      with o have "\<exists>j<tick s. i = fst (makeId e j)" by blast
      then show ?thesis
        using tick_step by (rule still_made)
    next
      case 2
      from new [OF 2] have "\<exists>j<snd (nextFiles e (tick s) fs). i = fst (makeId e j)"
        by blast
      then show ?thesis
        using t by (rule still_made)
    qed
  qed
  from dist own show ?thesis by blast
next
  case (RemoveFile fileId)
  show ?thesis
    by (rule ids_invariant_subset [OF _ _ tick_step o])
      (use d in \<open>simp_all add: RemoveFile ids_step del: step.simps\<close>)
next
  case Render
  show ?thesis
    by (rule ids_invariant_subset [OF _ _ tick_step o])
      (use d in \<open>simp_all add: Render ids_step del: step.simps\<close>)
next
  case BeforeRender
  show ?thesis
    by (rule ids_invariant_subset [OF _ _ tick_step o])
      (use d in \<open>simp_all add: BeforeRender ids_step del: step.simps\<close>)
next
  case Reset
  show ?thesis
    by (rule ids_invariant_subset [OF _ _ tick_step o])
      (use d in \<open>simp_all add: Reset ids_step del: step.simps\<close>)
next
  case (SendMessage request requestOptions fetch)
  show ?thesis
    by (rule ids_invariant_subset [OF _ _ tick_step o])
      (use d in \<open>simp_all add: SendMessage ids_step del: step.simps\<close>)
next
  case (TimerFired i fetch)
  show ?thesis
    by (rule ids_invariant_subset [OF _ _ tick_step o])
      (use d in \<open>simp_all add: TimerFired ids_step del: step.simps\<close>)
next
  case (TestAstraConnection fetch)
  show ?thesis
    by (rule ids_invariant_subset [OF _ _ tick_step o])
      (use d in \<open>simp_all add: TestAstraConnection ids_step del: step.simps\<close>)
qed

lemma makeId_env_set: "makeId env_set k = (''uuid-'' @ replicate k CHR ''x'', Suc k)"
  by (simp add: makeId_def env_set_def env_unset_def)

lemma env_set_fresh: "inj (\<lambda>k. fst (makeId env_set k))"
proof (rule injI)
  fix j k
  assume "fst (makeId env_set j) = fst (makeId env_set k)"
  then have "replicate j CHR ''x'' = replicate k CHR ''x''"
    by (simp add: makeId_env_set)
  then have "length (replicate j CHR ''x'') = length (replicate k CHR ''x'')"
    by (rule arg_cong)
  then show "j = k" by simp
qed

section \<open>Identifiers of the entries\<close>

text \<open>
  C7, as stated, fails: nothing in the page checks an identifier against the ones in
  use, so when the platform's generator answers the same string twice, two entries of
  the list share their \<open>id\<close>.
\<close>

theorem repeated_ids_counterexample:
  "map entry_id (uploadedFiles (run env_repeating (mount env_repeating)
      [FilesSelected [notes_txt, notes_txt]])) = [''same'', ''same''] \<and>
   \<not> distinct (map entry_id (uploadedFiles (run env_repeating (mount env_repeating)
      [FilesSelected [notes_txt, notes_txt]])))"
  by (simp add: run_def uploadedFiles_FilesSelected mount_files fst_nextFiles_Cons makeId_def
      env_repeating_def del: step.simps nextFiles.simps(2))

text \<open>
  C7, amended. Provided \<open>makeId\<close> never returns the same identifier at two different
  moments of the page session, in every state the page can reach from mounting the
  identifiers of the entries are pairwise distinct, and each of them is an identifier
  that \<open>makeId\<close> returned earlier in the session.
\<close>

theorem fresh_ids_stay_distinct:
  assumes "inj (\<lambda>k. fst (makeId e k))"
  shows "distinct (map entry_id (uploadedFiles (run e (mount e) evs))) \<and>
         (\<forall>i\<in>set (map entry_id (uploadedFiles (run e (mount e) evs))).
            \<exists>j<tick (run e (mount e) evs). i = fst (makeId e j))"
proof (induction evs rule: rev_induct)
  case Nil
  then show ?case by (simp add: run_Nil mount_files)
next
  case (snoc ev evs)
  then show ?case
    unfolding run_snoc using ids_invariant_step [OF assms] by blast
qed

theorem fresh_ids_stay_distinct_witness:
  "inj (\<lambda>k. fst (makeId env_set k)) \<and>
   map entry_id (uploadedFiles (run env_set (mount env_set)
      [FilesSelected [notes_txt, notes_txt]])) = [''uuid-x'', ''uuid-xxx''] \<and>
   distinct (map entry_id (uploadedFiles (run env_set (mount env_set)
      [FilesSelected [notes_txt, notes_txt]])))"
proof -
  have "map entry_id (uploadedFiles (run env_set (mount env_set)
      [FilesSelected [notes_txt, notes_txt]])) = [''uuid-x'', ''uuid-xxx'']"
    by (simp add: run_def uploadedFiles_FilesSelected mount_env_set fst_nextFiles_Cons
        makeId_env_set del: step.simps nextFiles.simps(2))
  with fresh_ids_stay_distinct [OF env_set_fresh, of "[FilesSelected [notes_txt, notes_txt]]"]
    env_set_fresh
  show ?thesis by simp
qed

section \<open>Reading a file and the requests to the document store\<close>

lemma split_nonempty: "split sep s \<noteq> []"
  by (induction s) (auto split: list.splits)

lemma split_without: "sep \<notin> set s \<Longrightarrow> split sep s = [s]"
  by (induction s) auto

lemma split_at_first: "sep \<notin> set h \<Longrightarrow> split sep (h @ sep # rest) = h # split sep rest"
  by (induction h) auto

lemma read_data_url:
  assumes "file_read f = Loaded (Some (header @ '','' @ b64))"
    and "CHR '','' \<notin> set header" and "CHR '','' \<notin> set b64"
  shows "readFileAsBase64 f = Inr b64"
  using assms by (simp add: readFileAsBase64_def split_at_first split_without)

lemma ingest_read:
  assumes "ASTRA_DB_API_ENDPOINT e \<noteq> [] \<and> ASTRA_DB_KEYSPACE e \<noteq> [] \<and>
           ASTRA_DB_COLLECTION e \<noteq> [] \<and> ASTRA_DB_TOKEN e \<noteq> []"
    and "readFileAsBase64 f = Inr base64"
  shows "requests (snd (ingestFileToAstra e fetch k f)) =
           [insertMany_request e (document e k f base64)]"
  using assms
  by (simp add: ingestFileToAstra_def ingestion_caught_def Let_def
      split: fetch_outcome.splits sum.splits)

lemma ingest_unread:
  assumes "ASTRA_DB_API_ENDPOINT e \<noteq> [] \<and> ASTRA_DB_KEYSPACE e \<noteq> [] \<and>
           ASTRA_DB_COLLECTION e \<noteq> [] \<and> ASTRA_DB_TOKEN e \<noteq> []"
    and "readFileAsBase64 f = Inl err"
  shows "ingestFileToAstra e fetch k f = ingestion_caught err [] k"
  using assms by (simp add: ingestFileToAstra_def)

lemma test_requests_configured:
  assumes "ASTRA_DB_API_ENDPOINT e \<noteq> [] \<and> ASTRA_DB_KEYSPACE e \<noteq> [] \<and>
           ASTRA_DB_COLLECTION e \<noteq> [] \<and> ASTRA_DB_TOKEN e \<noteq> []"
  shows "requests (snd (testAstraConnection e fetch k)) = [findOne_request e]"
  using assms by (simp add: testAstraConnection_def Let_def split: fetch_outcome.splits)

lemma env_set_astra:
  "ASTRA_DB_API_ENDPOINT env_set \<noteq> [] \<and> ASTRA_DB_KEYSPACE env_set \<noteq> [] \<and>
   ASTRA_DB_COLLECTION env_set \<noteq> [] \<and> ASTRA_DB_TOKEN env_set \<noteq> []"
  by (simp add: env_set_config)

section \<open>What is sent to the document store\<close>

text \<open>
  C8, as stated, fails: with the configuration complete, a file that the \<open>FileReader\<close>
  cannot read is caught before the \<open>fetch\<close>, so its ingestion makes no request.
\<close>

theorem unreadable_file_is_not_posted:
  "ASTRA_DB_API_ENDPOINT env_set \<noteq> [] \<and> ASTRA_DB_KEYSPACE env_set \<noteq> [] \<and>
   ASTRA_DB_COLLECTION env_set \<noteq> [] \<and> ASTRA_DB_TOKEN env_set \<noteq> [] \<and>
   requests (snd (ingestFileToAstra env_set (answering (JObj [])) 0 unreadable)) = []"
  by (simp add: env_set_config ingestFileToAstra_def readFileAsBase64_def unreadable_def
      notes_txt_def ingestion_caught_def)

text \<open>
  C8, amended. With the document-store configuration complete:
  \<^item> for every file that the \<open>FileReader\<close> delivers as a data URL (a header, a comma,
    and the base64 text), \<open>ingestFileToAstra\<close> makes exactly one request, a POST to the
    collection's URL whose body is an \<open>insertMany\<close> of one document holding that base64
    text with the file's name, its MIME type (or the octet-stream default), its size and
    the upload time;
  \<^item> for a file whose read fails, no request is made and the result is the failure;
  \<^item> \<open>testAstraConnection\<close> makes exactly one request, a POST whose body is the
    \<open>findOne\<close> query and has no \<open>insertMany\<close>.
\<close>

theorem ingestion_posts_one_document:
  assumes "ASTRA_DB_API_ENDPOINT e \<noteq> [] \<and> ASTRA_DB_KEYSPACE e \<noteq> [] \<and>
           ASTRA_DB_COLLECTION e \<noteq> [] \<and> ASTRA_DB_TOKEN e \<noteq> []"
  shows
    "(\<forall>header b64.
        file_read f = Loaded (Some (header @ '','' @ b64)) \<and>
        CHR '','' \<notin> set header \<and> CHR '','' \<notin> set b64 \<longrightarrow>
        (\<exists>rq doc.
           requests (snd (ingestFileToAstra e fetch k f)) = [rq] \<and>
           http_method rq = ''POST'' \<and>
           url rq = ASTRA_DB_API_ENDPOINT e @ ''/api/json/v1/'' @ ASTRA_DB_KEYSPACE e @ ''/'' @
                    ASTRA_DB_COLLECTION e \<and>
           body rq = JObj [(''insertMany'', JObj [(''documents'', JArr [doc])])] \<and>
           field ''contentBase64'' (Some doc) = Some (JStr b64) \<and>
           field ''filename'' (Some doc) = Some (JStr (file_name f)) \<and>
           field ''mimeType'' (Some doc) =
             Some (JStr (if file_type f = [] then ''application/octet-stream'' else file_type f)) \<and>
           field ''size'' (Some doc) =
             Some (case file_size f of None \<Rightarrow> JNull | Some n \<Rightarrow> JNum (of_nat n)) \<and>
           field ''uploadedAt'' (Some doc) = Some (JStr (toISOString e (Date_now e k))))) \<and>
     (\<forall>err. readFileAsBase64 f = Inl err \<longrightarrow>
        requests (snd (ingestFileToAstra e fetch k f)) = [] \<and>
        \<not> success (fst (ingestFileToAstra e fetch k f)) \<and>
        result_error (fst (ingestFileToAstra e fetch k f)) = Some err) \<and>
     requests (snd (testAstraConnection e fetch k)) = [findOne_request e] \<and>
     http_method (findOne_request e) = ''POST'' \<and>
     body (findOne_request e) =
       JObj [(''findOne'',
              JObj [(''filter'', JObj []),
                    (''options'',
                     JObj [(''includeSimilarity'', JBool False),
                           (''includeSortVector'', JBool False)])])] \<and>
     field ''insertMany'' (Some (body (findOne_request e))) = None"
proof (intro conjI allI impI)
  fix header b64
  assume h: "file_read f = Loaded (Some (header @ '','' @ b64)) \<and>
        CHR '','' \<notin> set header \<and> CHR '','' \<notin> set b64"
  then have "readFileAsBase64 f = Inr b64"
    by (simp add: read_data_url)
  with assms have "requests (snd (ingestFileToAstra e fetch k f)) =
      [insertMany_request e (document e k f b64)]"
    by (rule ingest_read)
  then show "\<exists>rq doc.
           requests (snd (ingestFileToAstra e fetch k f)) = [rq] \<and>
           http_method rq = ''POST'' \<and>
           url rq = ASTRA_DB_API_ENDPOINT e @ ''/api/json/v1/'' @ ASTRA_DB_KEYSPACE e @ ''/'' @
                    ASTRA_DB_COLLECTION e \<and>
           body rq = JObj [(''insertMany'', JObj [(''documents'', JArr [doc])])] \<and>
           field ''contentBase64'' (Some doc) = Some (JStr b64) \<and>
           field ''filename'' (Some doc) = Some (JStr (file_name f)) \<and>
           field ''mimeType'' (Some doc) =
             Some (JStr (if file_type f = [] then ''application/octet-stream'' else file_type f)) \<and>
           field ''size'' (Some doc) =
             Some (case file_size f of None \<Rightarrow> JNull | Some n \<Rightarrow> JNum (of_nat n)) \<and>
           field ''uploadedAt'' (Some doc) = Some (JStr (toISOString e (Date_now e k)))"
    by (simp add: insertMany_request_def document_def)
next
  fix err
  assume "readFileAsBase64 f = Inl err"
  with assms have eq: "ingestFileToAstra e fetch k f = ingestion_caught err [] k"
    by (rule ingest_unread)
  show "requests (snd (ingestFileToAstra e fetch k f)) = []"
    "\<not> success (fst (ingestFileToAstra e fetch k f))"
    "result_error (fst (ingestFileToAstra e fetch k f)) = Some err"
    by (simp_all add: eq ingestion_caught_def)
next
  show "requests (snd (testAstraConnection e fetch k)) = [findOne_request e]"
    using assms by (rule test_requests_configured)
qed (simp_all add: findOne_request_def)


theorem ingestion_posts_one_document_witness:
  "ASTRA_DB_API_ENDPOINT env_set \<noteq> [] \<and> ASTRA_DB_KEYSPACE env_set \<noteq> [] \<and>
   ASTRA_DB_COLLECTION env_set \<noteq> [] \<and> ASTRA_DB_TOKEN env_set \<noteq> [] \<and>
   file_read notes_txt = Loaded (Some (''data:text/plain;base64'' @ '','' @ ''aGVsbG8='')) \<and>
   CHR '','' \<notin> set ''data:text/plain;base64'' \<and> CHR '','' \<notin> set ''aGVsbG8='' \<and>
   map (\<lambda>rq. (http_method rq, url rq,
              field ''contentBase64'' (at0 (field ''documents'' (field ''insertMany'' (Some (body rq)))))))
     (requests (snd (ingestFileToAstra env_set offline 0 notes_txt))) =
     [(''POST'', ''https://db.example/api/json/v1/ks/raw_esg'', Some (JStr ''aGVsbG8=''))] \<and>
   readFileAsBase64 unreadable = Inl (Error ''Unknown file read error'') \<and>
   requests (snd (ingestFileToAstra env_set offline 0 unreadable)) = [] \<and>
   requests (snd (testAstraConnection env_set offline 0)) = [findOne_request env_set]"
proof -
  have rd: "file_read notes_txt = Loaded (Some (''data:text/plain;base64'' @ '','' @ ''aGVsbG8=''))"
    "CHR '','' \<notin> set ''data:text/plain;base64''" "CHR '','' \<notin> set ''aGVsbG8=''"
    by (simp_all add: notes_txt_def)
  have un: "readFileAsBase64 unreadable = Inl (Error ''Unknown file read error'')"
    by (simp add: readFileAsBase64_def unreadable_def)
  note th = ingestion_posts_one_document [OF env_set_astra, where fetch = offline and k = 0]
  from th [where f = notes_txt, THEN conjunct1, rule_format,
      of "''data:text/plain;base64''" "''aGVsbG8=''"] rd
  obtain rq doc where rq: "requests (snd (ingestFileToAstra env_set offline 0 notes_txt)) = [rq]"
    "http_method rq = ''POST''"
    "url rq = ASTRA_DB_API_ENDPOINT env_set @ ''/api/json/v1/'' @ ASTRA_DB_KEYSPACE env_set @
       ''/'' @ ASTRA_DB_COLLECTION env_set"
    "body rq = JObj [(''insertMany'', JObj [(''documents'', JArr [doc])])]"
    "field ''contentBase64'' (Some doc) = Some (JStr ''aGVsbG8='')"
    by blast
  from th [where f = unreadable, THEN conjunct2, THEN conjunct1, rule_format, OF un]
  have none: "requests (snd (ingestFileToAstra env_set offline 0 unreadable)) = []"
    by simp
  from th [where f = notes_txt, THEN conjunct2, THEN conjunct2, THEN conjunct1]
  have test: "requests (snd (testAstraConnection env_set offline 0)) = [findOne_request env_set]" .
  from rq none test un rd show ?thesis
    by (simp add: env_set_config)
qed

end
